theory Spec2Isabelle
  imports Complex_Main "HOL-Library.Multiset" "HOL-Library.Sublist" "HOL-Library.Product_Lexorder"
begin

text \<open>
  A shallow embedding of \<^verbatim>\<open>backend/embeddings.py\<close>, the class \<^verbatim>\<open>EmbeddingService\<close>:
  narrative synthesis from life events, projection through the two reduction models,
  nearest-cluster search and similarity search. The definitions come first, one per
  method or block of a method and with the names of the source; the lemmas about them and
  the theorems for the claims \<open>C1\<close> to \<open>C10\<close> follow.
\<close>

section \<open>Coordinates and computed distances\<close>

text \<open>
  A point of the 3D space is the NumPy array \<^verbatim>\<open>[x, y, z]\<close> of three finite doubles,
  each given by its real value.
\<close>

type_synonym coordinates_3d = "real \<times> real \<times> real"

text \<open>
  A double that \<^verbatim>\<open>np.linalg.norm\<close> can return: a finite value, \<^verbatim>\<open>inf\<close> or
  \<^verbatim>\<open>nan\<close>. The comparison \<^verbatim>\<open><\<close> of Python is false as soon as one side is
  \<^verbatim>\<open>nan\<close>, and \<^verbatim>\<open>inf < inf\<close> is false.
\<close>

datatype float64 = Finite real | PosInf | NaN

fun float_lt :: "float64 \<Rightarrow> float64 \<Rightarrow> bool" where
  "float_lt (Finite a) (Finite b) = (a < b)"
| "float_lt (Finite a) PosInf = True"
| "float_lt (Finite a) NaN = False"
| "float_lt PosInf b = False"
| "float_lt NaN b = False"

fun is_finite :: "float64 \<Rightarrow> bool" where
  "is_finite (Finite a) = True"
| "is_finite PosInf = False"
| "is_finite NaN = False"

text \<open>
  \<^verbatim>\<open>np.linalg.norm(a - b)\<close> is computed by NumPy in double arithmetic: the differences,
  their squares, the sum and the root are each rounded, a square can overflow to
  \<^verbatim>\<open>inf\<close> or underflow to zero, and the order of the additions is NumPy's. The
  computation belongs to NumPy, not to this repository, and is a parameter \<open>norm_diff\<close>
  of the two searches: \<open>norm_diff a b\<close> is the double that NumPy returns for the arrays
  \<open>a\<close> and \<open>b\<close>. Nothing is assumed of it but what a theorem says.

  For concrete inputs the parameter is \<open>norm_diff_where_exact\<close>: the exact norm of the
  exact difference, and \<^verbatim>\<open>inf\<close> where the sum of the squares is beyond the range of
  the doubles. This is what NumPy returns where every operation is exact or a square
  overflows, as for the small integer coordinates and the one large power of two used
  below; it is not a description of double arithmetic on other inputs.
\<close>

fun sub3 :: "coordinates_3d \<Rightarrow> coordinates_3d \<Rightarrow> coordinates_3d" where
  "sub3 (a, b, c) (x, y, z) = (a - x, b - y, c - z)"

fun sum_of_squares :: "coordinates_3d \<Rightarrow> real" where
  "sum_of_squares (x, y, z) = x\<^sup>2 + y\<^sup>2 + z\<^sup>2"

definition norm_diff_where_exact :: "coordinates_3d \<Rightarrow> coordinates_3d \<Rightarrow> float64" where
  "norm_diff_where_exact a b =
     (let s = sum_of_squares (sub3 a b)
      in if 2 ^ 1024 \<le> s then PosInf else Finite (sqrt s))"

section \<open>Nearest cluster\<close>

text \<open>A cluster information dict, with the keys \<^verbatim>\<open>find_nearest_cluster\<close> reads.\<close>

record cluster =
  cluster_id :: int
  cluster_label :: string
  avg_coordinates :: coordinates_3d

text \<open>
  One iteration of the loop body: the computed distance of the cluster centre from the
  point, and the update of \<^verbatim>\<open>min_distance\<close> and \<^verbatim>\<open>nearest_cluster\<close> under the strict
  comparison. The running minimum starts at \<^verbatim>\<open>float('inf')\<close>.
\<close>

definition nearest_step ::
  "(coordinates_3d \<Rightarrow> coordinates_3d \<Rightarrow> float64) \<Rightarrow> coordinates_3d
     \<Rightarrow> float64 \<times> cluster option \<Rightarrow> cluster \<Rightarrow> float64 \<times> cluster option" where
  "nearest_step norm_diff p st c =
     (let cluster_center = avg_coordinates c;
          distance = norm_diff p cluster_center
      in if float_lt distance (fst st) then (distance, Some c) else st)"

definition find_nearest_cluster ::
  "(coordinates_3d \<Rightarrow> coordinates_3d \<Rightarrow> float64) \<Rightarrow> coordinates_3d \<Rightarrow> cluster list
     \<Rightarrow> cluster option" where
  "find_nearest_cluster norm_diff p clusters_info =
     snd (foldl (nearest_step norm_diff p) (PosInf, None) clusters_info)"

text \<open>The distance the loop computes for one cluster.\<close>

definition cluster_distance ::
  "(coordinates_3d \<Rightarrow> coordinates_3d \<Rightarrow> float64) \<Rightarrow> coordinates_3d \<Rightarrow> cluster \<Rightarrow> float64" where
  "cluster_distance norm_diff p c = norm_diff p (avg_coordinates c)"

text \<open>
  Position \<open>i\<close> holds a first minimum of the list: its computed distance is finite, no
  cluster has a smaller one, and every cluster before it has a larger one or \<^verbatim>\<open>nan\<close>.
\<close>

definition first_minimum ::
  "(coordinates_3d \<Rightarrow> coordinates_3d \<Rightarrow> float64) \<Rightarrow> coordinates_3d \<Rightarrow> cluster list \<Rightarrow> nat
     \<Rightarrow> bool" where
  "first_minimum norm_diff p cs i \<longleftrightarrow>
     i < length cs \<and>
     is_finite (cluster_distance norm_diff p (cs ! i)) \<and>
     list_all (\<lambda>c. \<not> float_lt (cluster_distance norm_diff p c)
                      (cluster_distance norm_diff p (cs ! i))) cs \<and>
     list_all (\<lambda>c. float_lt (cluster_distance norm_diff p (cs ! i))
                    (cluster_distance norm_diff p c) \<or>
                  cluster_distance norm_diff p c = NaN) (take i cs)"

text \<open>The loop invariant: what the two loop variables hold after the clusters \<open>cs\<close>.\<close>

definition scan_state ::
  "(coordinates_3d \<Rightarrow> coordinates_3d \<Rightarrow> float64) \<Rightarrow> coordinates_3d \<Rightarrow> cluster list
     \<Rightarrow> float64 \<times> cluster option \<Rightarrow> bool" where
  "scan_state norm_diff p cs st \<longleftrightarrow>
     (if list_all (\<lambda>c. \<not> is_finite (cluster_distance norm_diff p c)) cs
      then st = (PosInf, None)
      else \<exists>i. first_minimum norm_diff p cs i \<and>
             st = (cluster_distance norm_diff p (cs ! i), Some (cs ! i)))"

section \<open>Similar persons\<close>

text \<open>The Python exceptions the modelled methods can raise.\<close>

datatype py_error =
    RuntimeError string
  | IndexError
  | AttributeError
  | TransformError

text \<open>
  \<^verbatim>\<open>np.linalg.norm(all_coordinates - coordinates_3d, axis=1)\<close>: the point is subtracted
  from every row of the \<open>N \<times> 3\<close> matrix and the norm of each row is computed.
\<close>

definition distances ::
  "(coordinates_3d \<Rightarrow> coordinates_3d \<Rightarrow> float64) \<Rightarrow> coordinates_3d \<Rightarrow> coordinates_3d list
     \<Rightarrow> float64 list" where
  "distances norm_diff p all_coordinates = map (\<lambda>row. norm_diff row p) all_coordinates"

text \<open>
  The slice \<^verbatim>\<open>xs[:k]\<close>: the first \<open>k\<close> elements for \<open>k \<ge> 0\<close>; a negative \<open>k\<close> counts
  from the end, so that the last \<open>-k\<close> elements are dropped.
\<close>

definition slice_to :: "int \<Rightarrow> 'a list \<Rightarrow> 'a list" where
  "slice_to k xs =
     (if k < 0 then take (nat (int (length xs) + k)) xs else take (nat k) xs)"

text \<open>
  The list comprehension \<^verbatim>\<open>[(all_person_ids[i], float(distances[i])) for i in ...]\<close>.
  Reading either sequence past its end raises \<^verbatim>\<open>IndexError\<close>.
\<close>

fun similar_pairs ::
  "string list \<Rightarrow> float64 list \<Rightarrow> nat list \<Rightarrow> py_error + (string \<times> float64) list" where
  "similar_pairs ids ds [] = Inr []"
| "similar_pairs ids ds (i # rest) =
     (if i < length ids \<and> i < length ds
      then (case similar_pairs ids ds rest of
              Inl e \<Rightarrow> Inl e
            | Inr r \<Rightarrow> Inr ((ids ! i, ds ! i) # r))
      else Inl IndexError)"

text \<open>
  The place of a double in NumPy's sorting order: the finite values in ascending order,
  then \<^verbatim>\<open>inf\<close>, and \<^verbatim>\<open>nan\<close> last.
\<close>

fun sort_rank :: "float64 \<Rightarrow> nat \<times> real" where
  "sort_rank (Finite a) = (0, a)"
| "sort_rank PosInf = (1, 0)"
| "sort_rank NaN = (2, 0)"

text \<open>
  \<^verbatim>\<open>np.argsort\<close> belongs to NumPy too, and the method calls it with its default
  sorting kind, for which NumPy promises an index permutation that sorts the array and no
  particular order among equal entries. The routine is a parameter of the model.
  \<open>is_argsort ds js\<close> is what NumPy promises of the result \<open>js\<close> on the array \<open>ds\<close>.
  Two routines that keep the promise serve for concrete inputs: \<open>stable_argsort\<close> leaves
  equal entries in ascending index order, \<open>descending_ties_argsort\<close> in descending
  index order.
\<close>

definition is_argsort :: "float64 list \<Rightarrow> nat list \<Rightarrow> bool" where
  "is_argsort ds js \<longleftrightarrow>
     mset js = mset [0..<length ds] \<and> sorted (map (\<lambda>i. sort_rank (ds ! i)) js)"

definition stable_argsort :: "float64 list \<Rightarrow> nat list" where
  "stable_argsort ds = sort_key (\<lambda>i. sort_rank (ds ! i)) [0..<length ds]"

definition descending_ties_argsort :: "float64 list \<Rightarrow> nat list" where
  "descending_ties_argsort ds = sort_key (\<lambda>i. sort_rank (ds ! i)) (rev [0..<length ds])"

definition find_similar_persons ::
  "(coordinates_3d \<Rightarrow> coordinates_3d \<Rightarrow> float64) \<Rightarrow> (float64 list \<Rightarrow> nat list)
     \<Rightarrow> coordinates_3d \<Rightarrow> string list \<Rightarrow> coordinates_3d list \<Rightarrow> int
     \<Rightarrow> py_error + (string \<times> float64) list" where
  "find_similar_persons norm_diff argsort p all_person_ids all_coordinates top_k =
     (let ds = distances norm_diff p all_coordinates;
          top_k_indices = slice_to top_k (argsort ds)
      in similar_pairs all_person_ids ds top_k_indices)"

text \<open>A value a norm can take: not a negative number.\<close>

fun is_norm_value :: "float64 \<Rightarrow> bool" where
  "is_norm_value (Finite a) = (0 \<le> a)"
| "is_norm_value PosInf = True"
| "is_norm_value NaN = True"

section \<open>Narrative synthesis\<close>

text \<open>
  A life event is a dict; the record has the keys \<^verbatim>\<open>create_narrative_from_events\<close>
  reads. For the event type \<open>None\<close> stands for an absent key (a present type is a
  string); for the other keys it stands for an absent key or the value \<^verbatim>\<open>None\<close>, which
  the method does not tell apart. A date is (year, month, day), ordered lexicographically
  as \<^verbatim>\<open>datetime.date\<close> is.
\<close>

type_synonym date = "nat \<times> nat \<times> nat"

record life_event =
  event_type :: "string option"
  event_title :: "string option"
  organization :: "string option"
  start_date :: "date option"

text \<open>Truthiness of an optional string: \<^verbatim>\<open>None\<close> and \<^verbatim>\<open>''\<close> are false.\<close>

fun truthy :: "string option \<Rightarrow> bool" where
  "truthy None = False"
| "truthy (Some s) = (s \<noteq> [])"

text \<open>The text an f-string inserts for a field that has been found truthy.\<close>

fun field_str :: "string option \<Rightarrow> string" where
  "field_str None = []"
| "field_str (Some s) = s"

text \<open>\<^verbatim>\<open>event.get('event_type', 'other')\<close>.\<close>

definition type_of :: "life_event \<Rightarrow> string" where
  "type_of event = (case event_type event of None \<Rightarrow> ''other'' | Some t \<Rightarrow> t)"

text \<open>\<^verbatim>\<open>datetime.min.date()\<close> and the sort key \<^verbatim>\<open>e.get('start_date') or datetime.min.date()\<close>.\<close>

definition date_min :: date where
  "date_min = (1, 1, 1)"

definition start_key :: "life_event \<Rightarrow> date" where
  "start_key e = (case start_date e of None \<Rightarrow> date_min | Some d \<Rightarrow> d)"

text \<open>\<^verbatim>\<open>sep.join(parts)\<close>.\<close>

fun join_str :: "string \<Rightarrow> string list \<Rightarrow> string" where
  "join_str sep [] = []"
| "join_str sep [x] = x"
| "join_str sep (x # y # ys) = x @ sep @ join_str sep (y # ys)"

text \<open>The decimal text of a length, as an f-string prints it.\<close>

definition digit_char :: "nat \<Rightarrow> char" where
  "digit_char n = ''0123456789'' ! n"

fun str_nat :: "nat \<Rightarrow> string" where
  "str_nat n = (if n < 10 then [digit_char n] else str_nat (n div 10) @ [digit_char (n mod 10)])"

declare str_nat.simps [simp del]

text \<open>The number a decimal text denotes, to state that \<open>str_nat\<close> prints its argument.\<close>

definition decimal_value :: "string \<Rightarrow> nat" where
  "decimal_value s = foldl (\<lambda>a c. 10 * a + (of_char c - 48)) 0 s"

text \<open>
  \<^verbatim>\<open>narrative.strip()\<close> removes leading and trailing whitespace; on ASCII text the
  whitespace characters are tab, line feed, vertical tab, form feed, carriage return, the
  four separators \<^verbatim>\<open>0x1c\<close> to \<^verbatim>\<open>0x1f\<close>, and the space.
\<close>

definition is_space :: "char \<Rightarrow> bool" where
  "is_space c \<longleftrightarrow>
     c \<in> set [CHR 0x09, CHR 0x0A, CHR 0x0B, CHR 0x0C, CHR 0x0D,
              CHR 0x1C, CHR 0x1D, CHR 0x1E, CHR 0x1F, CHR 0x20]"

definition strip :: "string \<Rightarrow> string" where
  "strip s = rev (dropWhile is_space (rev (dropWhile is_space s)))"

text \<open>The biography sentence, appended when a name or a description is given.\<close>

definition biography :: "string option \<Rightarrow> string option \<Rightarrow> string list" where
  "biography name description =
     (if truthy name \<or> truthy description
      then [(if truthy name then field_str name else ''This person'') @
            (if truthy description then '' is '' @ field_str description @ ''.'' else ''.'')]
      else [])"

text \<open>
  The dict \<^verbatim>\<open>event_types\<close>, in insertion order: an event is appended to the list of its
  type, and a type not seen before gets a new entry at the end.
\<close>

fun group_append ::
  "string \<Rightarrow> life_event \<Rightarrow> (string \<times> life_event list) list \<Rightarrow> (string \<times> life_event list) list" where
  "group_append t e [] = [(t, [e])]"
| "group_append t e ((t', es) # rest) =
     (if t' = t then (t', es @ [e]) # rest else (t', es) # group_append t e rest)"

definition group_by_type :: "life_event list \<Rightarrow> (string \<times> life_event list) list" where
  "group_by_type events =
     foldl (\<lambda>event_types event. group_append (type_of event) event event_types) [] events"

text \<open>Education: the label of one event (none when the title is empty) and the sentence.\<close>

definition education_label :: "life_event \<Rightarrow> string list" where
  "education_label event =
     (let title = field_str (event_title event); org = field_str (organization event)
      in if title \<noteq> [] \<and> org \<noteq> [] then [title @ '' from '' @ org]
         else if title \<noteq> [] then [title]
         else [])"

definition education_sentence :: "(string \<times> life_event list) list \<Rightarrow> string list" where
  "education_sentence event_types =
     (case map_of event_types ''education'' of
        None \<Rightarrow> []
      | Some evs \<Rightarrow>
          (let edu_events = sort_key start_key evs;
               edu_parts = concat (map education_label edu_events)
           in if edu_parts = [] then []
              else if length edu_parts = 1 then [''Studied '' @ hd edu_parts @ ''.'']
              else [''Educational background includes '' @
                    (join_str '', '' (butlast edu_parts) @ '' and '' @ last edu_parts) @ ''.'']))"

text \<open>Employment.\<close>

definition employment_label :: "life_event \<Rightarrow> string list" where
  "employment_label event =
     (let title = field_str (event_title event); org = field_str (organization event)
      in if title \<noteq> [] \<and> org \<noteq> [] then [title @ '' at '' @ org]
         else if org \<noteq> [] then [''worked at '' @ org]
         else if title \<noteq> [] then [title]
         else [])"

definition employment_sentence :: "(string \<times> life_event list) list \<Rightarrow> string list" where
  "employment_sentence event_types =
     (case map_of event_types ''employment'' of
        None \<Rightarrow> []
      | Some evs \<Rightarrow>
          (let emp_events = sort_key start_key evs;
               emp_parts = concat (map employment_label emp_events)
           in if emp_parts = [] then []
              else if length emp_parts \<le> 3
              then [''Career includes '' @ join_str '', '' emp_parts @ ''.'']
              else [''Career includes '' @
                    (join_str '', '' (take 3 emp_parts) @ '' and '' @
                     str_nat (length emp_parts - 3) @ '' other positions'') @ ''.'']))"

text \<open>Awards.\<close>

definition award_sentence :: "(string \<times> life_event list) list \<Rightarrow> string list" where
  "award_sentence event_types =
     (case map_of event_types ''award'' of
        None \<Rightarrow> []
      | Some award_events \<Rightarrow>
          if length award_events \<le> 5
          then (let award_names =
                      map (\<lambda>e. field_str (event_title e))
                        (filter (\<lambda>e. truthy (event_title e)) award_events)
                in if award_names = [] then []
                   else [''Received awards: '' @ join_str '', '' award_names @ ''.''])
          else [''Received '' @ str_nat (length award_events) @ '' awards and honors.''])"

text \<open>The other types, in the order of the dict.\<close>

definition other_sentence :: "string \<times> life_event list \<Rightarrow> string list" where
  "other_sentence entry =
     (case entry of (t, events_of_type) \<Rightarrow>
        if t \<notin> set [''education'', ''employment'', ''award'']
        then (if events_of_type \<noteq> []
              then [''Notable '' @ t @ '' events: '' @ str_nat (length events_of_type) @ ''.'']
              else [])
        else [])"

definition other_sentences :: "(string \<times> life_event list) list \<Rightarrow> string list" where
  "other_sentences event_types = concat (map other_sentence event_types)"

text \<open>The list \<^verbatim>\<open>narrative_parts\<close> at the end of the method, and the method.\<close>

definition narrative_parts :: "life_event list \<Rightarrow> string option \<Rightarrow> string option \<Rightarrow> string list" where
  "narrative_parts events name description =
     (let event_types = group_by_type events
      in biography name description @
         education_sentence event_types @
         employment_sentence event_types @
         award_sentence event_types @
         other_sentences event_types)"

definition fallback_narrative :: string where
  "fallback_narrative = ''This person has a diverse background with various life experiences.''"

definition create_narrative_from_events ::
  "life_event list \<Rightarrow> string option \<Rightarrow> string option \<Rightarrow> string" where
  "create_narrative_from_events events name description =
     (let narrative = join_str '' '' (narrative_parts events name description)
      in if strip narrative = [] then fallback_narrative else narrative)"

section \<open>The service and its reduction models\<close>

text \<open>
  A fitted PCA or UMAP model is an object of a library. The model sees of it an internal
  state and its method \<^verbatim>\<open>transform\<close>, which from the internal state and a vector gives
  the result (a vector, or \<open>None\<close> when the library raises) and the internal state after
  the call: a library is free to change its object while it transforms. The objects live
  in a store, and the service refers to them by address, so that one object loaded as both
  models is one object.
\<close>

type_synonym addr = nat

record 'm model_object =
  internal :: 'm
  transform :: "'m \<Rightarrow> real list \<Rightarrow> real list option \<times> 'm"

type_synonym 'm store = "addr \<Rightarrow> 'm model_object"

text \<open>
  \<^verbatim>\<open>obj.transform(v)\<close> for the object at address \<open>a\<close>: the result, and the store with
  the object as the call left it.
\<close>

definition call_transform :: "'m store \<Rightarrow> addr \<Rightarrow> real list \<Rightarrow> real list option \<times> 'm store" where
  "call_transform objs a v =
     (let obj = objs a;
          r = transform obj (internal obj) v
      in (fst r, objs(a := obj\<lparr>internal := snd r\<rparr>)))"

text \<open>
  The attributes of \<^verbatim>\<open>EmbeddingService\<close>. The embedding model is a handle of the
  external provider, of a type the model leaves open. A model attribute holds the address
  of an object, or the Python value \<^verbatim>\<open>None\<close>.
\<close>

record 'em embedding_service =
  embedding_model :: 'em
  pca_model :: "addr option"
  umap_model :: "addr option"
  models_loaded :: bool

text \<open>What a method call can read and change: the service and the store of objects.\<close>

record ('em, 'm) world =
  self :: "'em embedding_service"
  objects :: "'m store"

text \<open>\<^verbatim>\<open>__init__\<close>, given the embedding model it obtains from the provider.\<close>

definition init_service :: "'em \<Rightarrow> 'm store \<Rightarrow> ('em, 'm) world" where
  "init_service em objs =
     \<lparr>self = \<lparr>embedding_model = em, pca_model = None, umap_model = None,
               models_loaded = False\<rparr>,
      objects = objs\<rparr>"

definition load_reduction_models ::
  "('em, 'm) world \<Rightarrow> addr option \<Rightarrow> addr option \<Rightarrow> ('em, 'm) world" where
  "load_reduction_models w pca umap =
     w\<lparr>self := (self w)\<lparr>pca_model := pca, umap_model := umap, models_loaded := True\<rparr>\<rparr>"

text \<open>
  \<^verbatim>\<open>project_to_3d\<close>. The first check raises the \<^verbatim>\<open>RuntimeError\<close> that is the
  ``model not ready'' condition. Calling \<^verbatim>\<open>transform\<close> on \<^verbatim>\<open>None\<close> raises
  \<^verbatim>\<open>AttributeError\<close>; an exception raised inside a library's \<^verbatim>\<open>transform\<close> is
  \<open>TransformError\<close>. The method assigns to no attribute of \<^verbatim>\<open>self\<close>; the store
  changes as the two calls of \<^verbatim>\<open>transform\<close> change it.
\<close>

definition project_to_3d ::
  "('em, 'm) world \<Rightarrow> real list \<Rightarrow> (py_error + real list) \<times> ('em, 'm) world" where
  "project_to_3d w embedding_768d =
     (if \<not> models_loaded (self w)
      then (Inl (RuntimeError ''PCA/UMAP models not loaded. Call load_reduction_models() first.''),
            w)
      else case pca_model (self w) of
             None \<Rightarrow> (Inl AttributeError, w)
           | Some pca \<Rightarrow>
               (let r1 = call_transform (objects w) pca embedding_768d;
                    w1 = w\<lparr>objects := snd r1\<rparr>
                in case fst r1 of
                     None \<Rightarrow> (Inl TransformError, w1)
                   | Some embedding_50d \<Rightarrow>
                       (case umap_model (self w) of
                          None \<Rightarrow> (Inl AttributeError, w1)
                        | Some umap \<Rightarrow>
                            (let r2 = call_transform (objects w1) umap embedding_50d;
                                 w2 = w1\<lparr>objects := snd r2\<rparr>
                             in case fst r2 of
                                  None \<Rightarrow> (Inl TransformError, w2)
                                | Some coordinates_3d \<Rightarrow> (Inr coordinates_3d, w2)))))"

text \<open>The routines of NumPy the two searches call, as parameters of a call.\<close>

record numpy =
  np_norm :: "coordinates_3d \<Rightarrow> coordinates_3d \<Rightarrow> float64"
  np_norm_rows :: "coordinates_3d \<Rightarrow> coordinates_3d \<Rightarrow> float64"
  np_argsort :: "float64 list \<Rightarrow> nat list"

text \<open>
  The calls a client can make on a service, and what a call returns together with the
  service and the store after it. \<^verbatim>\<open>load_reduction_models\<close> assigns to attributes of
  \<^verbatim>\<open>self\<close> and \<^verbatim>\<open>project_to_3d\<close> calls into the two objects; the bodies of the
  other three methods do not mention \<^verbatim>\<open>self\<close>.
\<close>

datatype command =
    LoadReductionModels "addr option" "addr option"
  | ProjectTo3d "real list"
  | FindNearestCluster coordinates_3d "cluster list"
  | FindSimilarPersons coordinates_3d "string list" "coordinates_3d list" int
  | CreateNarrative "life_event list" "string option" "string option"

datatype outcome =
    Loaded
  | Projected "py_error + real list"
  | Nearest "cluster option"
  | Similar "py_error + (string \<times> float64) list"
  | Narrative string

fun call :: "numpy \<Rightarrow> ('em, 'm) world \<Rightarrow> command \<Rightarrow> outcome \<times> ('em, 'm) world" where
  "call np w (LoadReductionModels pca umap) = (Loaded, load_reduction_models w pca umap)"
| "call np w (ProjectTo3d v) = (Projected (fst (project_to_3d w v)), snd (project_to_3d w v))"
| "call np w (FindNearestCluster p clusters_info) =
     (Nearest (find_nearest_cluster (np_norm np) p clusters_info), w)"
| "call np w (FindSimilarPersons p ids coords top_k) =
     (Similar (find_similar_persons (np_norm_rows np) (np_argsort np) p ids coords top_k), w)"
| "call np w (CreateNarrative events name description) =
     (Narrative (create_narrative_from_events events name description), w)"

fun is_load :: "command \<Rightarrow> bool" where
  "is_load (LoadReductionModels pca umap) = True"
| "is_load c = False"

fun is_project :: "command \<Rightarrow> bool" where
  "is_project (ProjectTo3d v) = True"
| "is_project c = False"

text \<open>The service and the store after a sequence of calls.\<close>

definition run :: "numpy \<Rightarrow> ('em, 'm) world \<Rightarrow> command list \<Rightarrow> ('em, 'm) world" where
  "run np w cmds = foldl (\<lambda>s c. snd (call np s c)) w cmds"

text \<open>A model object is pure when its \<^verbatim>\<open>transform\<close> leaves its internal state as it was.\<close>

definition pure_model :: "'m model_object \<Rightarrow> bool" where
  "pure_model obj \<longleftrightarrow> (\<forall>v. snd (transform obj (internal obj) v) = internal obj)"

text \<open>
  Stand-ins for fitted models, for concrete inputs. The first keeps two components of its
  input, the second reverses its input; both are pure. The third keeps two components and
  counts its calls in its internal state, as a model does that prepares or caches
  something at a query.
\<close>

definition truncating_model :: "nat model_object" where
  "truncating_model = \<lparr>internal = 0, transform = (\<lambda>n v. (Some (take 2 v), n))\<rparr>"

definition reversing_model :: "nat model_object" where
  "reversing_model = \<lparr>internal = 0, transform = (\<lambda>n v. (Some (rev v), n))\<rparr>"

definition counting_model :: "nat model_object" where
  "counting_model = \<lparr>internal = 0, transform = (\<lambda>n v. (Some (take 2 v), Suc n))\<rparr>"

definition pure_store :: "nat store" where
  "pure_store a = (if a = 0 then truncating_model else reversing_model)"

definition counting_store :: "nat store" where
  "counting_store a = (if a = 0 then counting_model else reversing_model)"

text \<open>NumPy where its arithmetic is exact, with a sort that leaves ties in row order.\<close>

definition numpy_where_exact :: numpy where
  "numpy_where_exact =
     \<lparr>np_norm = norm_diff_where_exact, np_norm_rows = norm_diff_where_exact,
      np_argsort = stable_argsort\<rparr>"

section \<open>The minimum scan of the nearest-cluster search\<close>

lemma float_lt_PosInf: "float_lt d PosInf \<longleftrightarrow> is_finite d"
  by (cases d) simp_all

lemma float_lt_finite: "float_lt a b \<Longrightarrow> is_finite a"
  by (cases a) simp_all

lemma float_lt_trans: "float_lt a b \<Longrightarrow> float_lt b c \<Longrightarrow> float_lt a c"
  by (cases a; cases b; cases c) simp_all

lemma float_lt_irrefl: "\<not> float_lt a a"
  by (cases a) simp_all

lemma scan_state_step:
  assumes "scan_state nd p cs st"
  shows "scan_state nd p (cs @ [c]) (nearest_step nd p st c)"
proof (cases "list_all (\<lambda>c. \<not> is_finite (cluster_distance nd p c)) cs")
  case True
  with assms have st: "st = (PosInf, None)" by (simp add: scan_state_def)
  show ?thesis
  proof (cases "is_finite (cluster_distance nd p c)")
    case False
    then have "nearest_step nd p st c = st"
      using st by (simp add: nearest_step_def cluster_distance_def float_lt_PosInf)
    then show ?thesis using True False st by (simp add: scan_state_def)
  next
    case fin: True
    then have step: "nearest_step nd p st c = (cluster_distance nd p c, Some c)"
      using st by (simp add: nearest_step_def cluster_distance_def float_lt_PosInf)
    have "\<not> float_lt (cluster_distance nd p x) (cluster_distance nd p c)" if "x \<in> set cs" for x
      using True that float_lt_finite by (auto simp: list_all_iff)
    moreover have "cluster_distance nd p x = NaN \<or>
        float_lt (cluster_distance nd p c) (cluster_distance nd p x)" if "x \<in> set cs" for x
    proof -
      from True that have "\<not> is_finite (cluster_distance nd p x)" by (auto simp: list_all_iff)
      then show ?thesis using fin
        by (cases "cluster_distance nd p x"; cases "cluster_distance nd p c") simp_all
    qed
    ultimately have "first_minimum nd p (cs @ [c]) (length cs)"
      using fin by (auto simp: first_minimum_def list_all_iff float_lt_irrefl)
    then show ?thesis using step fin by (auto simp: scan_state_def)
  qed
next
  case False
  with assms obtain i where i: "first_minimum nd p cs i"
    and st: "st = (cluster_distance nd p (cs ! i), Some (cs ! i))"
    by (auto simp: scan_state_def)
  from i have il: "i < length cs" and fi: "is_finite (cluster_distance nd p (cs ! i))"
    by (simp_all add: first_minimum_def)
  have nf: "\<not> list_all (\<lambda>c. \<not> is_finite (cluster_distance nd p c)) (cs @ [c])"
    using False by simp
  show ?thesis
  proof (cases "float_lt (cluster_distance nd p c) (cluster_distance nd p (cs ! i))")
    case True
    then have step: "nearest_step nd p st c = (cluster_distance nd p c, Some c)"
      using st by (simp add: nearest_step_def cluster_distance_def)
    have fc: "is_finite (cluster_distance nd p c)" using True by (rule float_lt_finite)
    have "\<not> float_lt (cluster_distance nd p x) (cluster_distance nd p c)" if "x \<in> set cs" for x
    proof
      assume "float_lt (cluster_distance nd p x) (cluster_distance nd p c)"
      then have "float_lt (cluster_distance nd p x) (cluster_distance nd p (cs ! i))"
        using True by (rule float_lt_trans)
      then show False using i that by (auto simp: first_minimum_def list_all_iff)
    qed
    moreover have "float_lt (cluster_distance nd p c) (cluster_distance nd p x) \<or>
        cluster_distance nd p x = NaN" if "x \<in> set cs" for x
    proof -
      from i that have "\<not> float_lt (cluster_distance nd p x) (cluster_distance nd p (cs ! i))"
        by (auto simp: first_minimum_def list_all_iff)
      then show ?thesis using True fi
        by (cases "cluster_distance nd p x"; cases "cluster_distance nd p c";
            cases "cluster_distance nd p (cs ! i)") simp_all
    qed
    ultimately have "first_minimum nd p (cs @ [c]) (length cs)"
      using fc by (auto simp: first_minimum_def list_all_iff float_lt_irrefl)
    then show ?thesis using step nf by (auto simp: scan_state_def)
  next
    case nlt: False
    then have step: "nearest_step nd p st c = st"
      using st by (simp add: nearest_step_def cluster_distance_def)
    have "first_minimum nd p (cs @ [c]) i"
      using i nlt il by (auto simp: first_minimum_def list_all_iff nth_append)
    then show ?thesis using step st il nf by (auto simp: scan_state_def nth_append)
  qed
qed

lemma scan_state_foldl:
  "scan_state nd p cs (foldl (nearest_step nd p) (PosInf, None) cs)"
proof (induction cs rule: rev_induct)
  case Nil
  show ?case by (simp add: scan_state_def)
next
  case (snoc c cs)
  then show ?case by (simp add: scan_state_step)
qed

lemma first_minimum_nth:
  assumes "first_minimum nd p cs i"
  shows "i < length cs"
    and "is_finite (cluster_distance nd p (cs ! i))"
    and "\<And>j. j < length cs \<Longrightarrow>
           \<not> float_lt (cluster_distance nd p (cs ! j)) (cluster_distance nd p (cs ! i))"
    and "\<And>j. j < i \<Longrightarrow>
           float_lt (cluster_distance nd p (cs ! i)) (cluster_distance nd p (cs ! j)) \<or>
           cluster_distance nd p (cs ! j) = NaN"
proof -
  show il: "i < length cs" using assms by (simp add: first_minimum_def)
  show "is_finite (cluster_distance nd p (cs ! i))" using assms by (simp add: first_minimum_def)
  show "\<not> float_lt (cluster_distance nd p (cs ! j)) (cluster_distance nd p (cs ! i))"
    if "j < length cs" for j
    using assms that by (simp add: first_minimum_def list_all_length)
  show "float_lt (cluster_distance nd p (cs ! i)) (cluster_distance nd p (cs ! j)) \<or>
           cluster_distance nd p (cs ! j) = NaN" if "j < i" for j
    using assms that il by (simp add: first_minimum_def list_all_length)
qed

text \<open>
  What the search returns on every list: nothing when no computed distance is finite, and
  otherwise the cluster at the first minimum of the computed distances.
\<close>

lemma find_nearest_cluster_None_iff:
  "find_nearest_cluster nd p cs = None \<longleftrightarrow>
     list_all (\<lambda>c. \<not> is_finite (cluster_distance nd p c)) cs"
proof (cases "list_all (\<lambda>c. \<not> is_finite (cluster_distance nd p c)) cs")
  case True
  then show ?thesis
    using scan_state_foldl [of nd p cs] by (simp add: scan_state_def find_nearest_cluster_def)
next
  case False
  then obtain i where "foldl (nearest_step nd p) (PosInf, None) cs =
      (cluster_distance nd p (cs ! i), Some (cs ! i))"
    using scan_state_foldl [of nd p cs] by (auto simp: scan_state_def)
  then show ?thesis using False by (simp add: find_nearest_cluster_def)
qed

lemma find_nearest_cluster_first_minimum:
  assumes "\<not> list_all (\<lambda>c. \<not> is_finite (cluster_distance nd p c)) cs"
  shows "\<exists>i. first_minimum nd p cs i \<and> find_nearest_cluster nd p cs = Some (cs ! i)"
  using scan_state_foldl [of nd p cs] assms
  by (auto simp: scan_state_def find_nearest_cluster_def)

text \<open>The same in terms of positions of the list.\<close>

lemma find_nearest_cluster_returns_first_minimum:
  assumes "\<not> list_all (\<lambda>c. \<not> is_finite (cluster_distance nd p c)) clusters_info"
  shows "\<exists>i<length clusters_info.
           find_nearest_cluster nd p clusters_info = Some (clusters_info ! i) \<and>
           is_finite (cluster_distance nd p (clusters_info ! i)) \<and>
           (\<forall>j<length clusters_info.
              \<not> float_lt (cluster_distance nd p (clusters_info ! j))
                    (cluster_distance nd p (clusters_info ! i))) \<and>
           (\<forall>j<i. float_lt (cluster_distance nd p (clusters_info ! i))
                      (cluster_distance nd p (clusters_info ! j)) \<or>
                  cluster_distance nd p (clusters_info ! j) = NaN)"
proof -
  from find_nearest_cluster_first_minimum [OF assms]
  obtain i where fm: "first_minimum nd p clusters_info i"
    and res: "find_nearest_cluster nd p clusters_info = Some (clusters_info ! i)"
    by blast
  note m = first_minimum_nth [OF fm]
  show ?thesis using res m by blast
qed

text \<open>Two clusters at the same computed distance 1 from the origin: the first one is returned.\<close>

lemma find_nearest_cluster_tie_example:
  "find_nearest_cluster norm_diff_where_exact (0, 0, 0)
     [\<lparr>cluster_id = 0, cluster_label = ''a'', avg_coordinates = (1, 0, 0)\<rparr>,
      \<lparr>cluster_id = 1, cluster_label = ''b'', avg_coordinates = (0, 1, 0)\<rparr>]
   = Some \<lparr>cluster_id = 0, cluster_label = ''a'', avg_coordinates = (1, 0, 0)\<rparr>"
proof -
  have "norm_diff_where_exact (0, 0, 0) (1, 0, 0) = Finite 1"
    "norm_diff_where_exact (0, 0, 0) (0, 1, 0) = Finite 1"
    by (simp_all add: norm_diff_where_exact_def)
  then show ?thesis by (simp add: find_nearest_cluster_def nearest_step_def)
qed

text \<open>
  When the computed distance of the cluster at position \<open>k\<close> is 0.0, as it is for a
  finite centre equal to the point, and no other cluster is at computed distance 0.0, the
  cluster at position \<open>k\<close> is returned.
\<close>

lemma find_nearest_cluster_exact_match:
  assumes k: "k < length clusters_info"
    and zero: "cluster_distance nd p (clusters_info ! k) = Finite 0"
    and norms: "list_all (\<lambda>c. is_norm_value (cluster_distance nd p c)) clusters_info"
    and others: "\<forall>j<length clusters_info. j \<noteq> k \<longrightarrow>
                   cluster_distance nd p (clusters_info ! j) \<noteq> Finite 0"
  shows "find_nearest_cluster nd p clusters_info = Some (clusters_info ! k)"
proof -
  have "\<not> list_all (\<lambda>c. \<not> is_finite (cluster_distance nd p c)) clusters_info"
    using k zero by (auto simp: list_all_length)
  from find_nearest_cluster_returns_first_minimum [OF this]
  obtain i where i: "i < length clusters_info"
    and res: "find_nearest_cluster nd p clusters_info = Some (clusters_info ! i)"
    and fin: "is_finite (cluster_distance nd p (clusters_info ! i))"
    and least: "\<forall>j<length clusters_info.
              \<not> float_lt (cluster_distance nd p (clusters_info ! j))
                    (cluster_distance nd p (clusters_info ! i))"
    by blast
  from least k zero have "\<not> float_lt (Finite 0) (cluster_distance nd p (clusters_info ! i))"
    by auto
  moreover have "is_norm_value (cluster_distance nd p (clusters_info ! i))"
    using norms i by (simp add: list_all_length)
  ultimately have "cluster_distance nd p (clusters_info ! i) = Finite 0"
    using fin by (cases "cluster_distance nd p (clusters_info ! i)") auto
  with others i have "i = k" by blast
  with res show ?thesis by simp
qed

section \<open>The index permutation of the similarity search\<close>

lemma is_argsort_props:
  assumes "is_argsort ds js"
  shows "length js = length ds" and "distinct js" and "set js = {0..<length ds}"
    and "sorted (map (\<lambda>i. sort_rank (ds ! i)) js)"
proof -
  from assms have m: "mset js = mset [0..<length ds]" by (simp add: is_argsort_def)
  from m have "size (mset js) = size (mset [0..<length ds])" by simp
  then show "length js = length ds" by simp
  from m have "distinct js = distinct [0..<length ds]" by (rule mset_eq_imp_distinct_iff)
  then show "distinct js" by simp
  from m have "set js = set [0..<length ds]" by (rule mset_eq_setD)
  then show "set js = {0..<length ds}" by simp
  from assms show "sorted (map (\<lambda>i. sort_rank (ds ! i)) js)" by (simp add: is_argsort_def)
qed

lemma similar_pairs_map:
  assumes "\<forall>i\<in>set js. i < length ids \<and> i < length ds"
  shows "similar_pairs ids ds js = Inr (map (\<lambda>i. (ids ! i, ds ! i)) js)"
  using assms by (induction js) simp_all

text \<open>Both routines keep NumPy's promise, which leaves the order of equal entries open.\<close>

lemma is_argsort_stable: "is_argsort ds (stable_argsort ds)"
  by (simp add: is_argsort_def stable_argsort_def)

lemma is_argsort_descending_ties: "is_argsort ds (descending_ties_argsort ds)"
  by (simp add: is_argsort_def descending_ties_argsort_def)

lemma distances_nth: "j < length coords \<Longrightarrow> distances nd p coords ! j = nd (coords ! j) p"
  by (simp add: distances_def)

lemma length_distances: "length (distances nd p coords) = length coords"
  by (simp add: distances_def)

lemma slice_to_pos: "0 \<le> k \<Longrightarrow> slice_to k xs = take (nat k) xs"
  by (simp add: slice_to_def)

lemma slice_to_neg: "k < 0 \<Longrightarrow> slice_to k xs = take (nat (int (length xs) + k)) xs"
  by (simp add: slice_to_def)

text \<open>The method's result in terms of the rows it selects.\<close>

lemma find_similar_persons_rows:
  assumes srt: "is_argsort (distances nd p coords) (argsort (distances nd p coords))"
    and len: "length ids = length coords"
  shows "find_similar_persons nd argsort p ids coords k =
           Inr (map (\<lambda>j. (ids ! j, nd (coords ! j) p))
                  (slice_to k (argsort (distances nd p coords))))"
proof -
  let ?ds = "distances nd p coords"
  let ?js = "slice_to k (argsort ?ds)"
  have sub: "set ?js \<subseteq> set (argsort ?ds)"
    by (auto simp: slice_to_def dest: in_set_takeD)
  have bound: "j < length coords" if "j \<in> set ?js" for j
    using sub that is_argsort_props(3) [OF srt] by (auto simp: length_distances)
  have "similar_pairs ids ?ds ?js = Inr (map (\<lambda>i. (ids ! i, ?ds ! i)) ?js)"
    by (rule similar_pairs_map) (use bound len in \<open>auto simp: length_distances\<close>)
  moreover have "map (\<lambda>i. (ids ! i, ?ds ! i)) ?js =
      map (\<lambda>j. (ids ! j, nd (coords ! j) p)) ?js"
    by (rule map_cong) (use bound in \<open>auto simp: distances_nth\<close>)
  ultimately show ?thesis by (simp add: find_similar_persons_def Let_def)
qed

lemma sorted_map_head_least:
  assumes "sorted (map f xs)" and "x \<in> set xs"
  shows "f (hd xs) \<le> f x"
  using assms by (cases xs) auto

lemma take_rest_in_drop:
  assumes "b \<in> set xs" and "b \<notin> set (take n xs)"
  shows "b \<in> set (drop n xs)"
proof -
  have "set xs = set (take n xs) \<union> set (drop n xs)"
    by (metis append_take_drop_id set_append)
  with assms show ?thesis by blast
qed

lemma sorted_map_take_le_drop:
  assumes "sorted (map f xs)" and "a \<in> set (take n xs)" and "b \<in> set (drop n xs)"
  shows "f a \<le> f b"
proof -
  have "sorted (map f (take n xs) @ map f (drop n xs))"
    using assms(1) by (metis append_take_drop_id map_append)
  then show ?thesis using assms(2,3) by (auto simp: sorted_append)
qed

lemma norm_value_rank_zero:
  assumes "is_norm_value x" and "sort_rank x \<le> sort_rank (Finite 0)"
  shows "x = Finite 0"
  using assms by (cases x) auto

text \<open>
  On four rows that all equal the query point the first pair misses the person id of some
  row equal to the point, whatever the computed distances and whatever order
  \<^verbatim>\<open>np.argsort\<close> leaves the rows in.
\<close>

lemma four_rows_at_the_point:
  assumes srt: "is_argsort (distances nd p [p, p, p, p]) (argsort (distances nd p [p, p, p, p]))"
  shows "\<exists>i<4. \<exists>r.
           find_similar_persons nd argsort p [''a'', ''b'', ''c'', ''d''] [p, p, p, p] 4 = Inr r \<and>
           r \<noteq> [] \<and> [p, p, p, p] ! i = p \<and>
           fst (hd r) \<noteq> [''a'', ''b'', ''c'', ''d''] ! i"
proof -
  let ?coords = "[p, p, p, p]"
  let ?ids = "[''a'', ''b'', ''c'', ''d'']"
  let ?perm = "argsort (distances nd p ?coords)"
  let ?r = "map (\<lambda>j. (?ids ! j, nd (?coords ! j) p)) (slice_to 4 ?perm)"
  have len: "length ?ids = length ?coords" by simp
  have res: "find_similar_persons nd argsort p ?ids ?coords 4 = Inr ?r"
    by (rule find_similar_persons_rows [where argsort = argsort and k = 4, OF srt len])
  have n: "length ?perm = 4"
    using is_argsort_props(1) [OF srt] by (simp add: length_distances)
  then have sl: "slice_to 4 ?perm = ?perm" by (simp add: slice_to_def)
  from n have ne: "?perm \<noteq> []" by auto
  then have "hd ?perm \<in> set ?perm" by simp
  then have h: "hd ?perm < 4"
    using is_argsort_props(3) [OF srt] by (simp add: length_distances)
  have hr: "fst (hd ?r) = ?ids ! hd ?perm" using ne sl by (simp add: hd_map)
  define i :: nat where "i = (if hd ?perm = 0 then 1 else 0)"
  have i4: "i < 4" by (simp add: i_def)
  have "?ids ! hd ?perm \<noteq> ?ids ! i"
  proof -
    from h have "hd ?perm = 0 \<or> hd ?perm = 1 \<or> hd ?perm = 2 \<or> hd ?perm = 3" by auto
    then show ?thesis by (auto simp: i_def)
  qed
  with hr have "fst (hd ?r) \<noteq> ?ids ! i" by simp
  moreover have "?coords ! i = p" by (simp add: i_def)
  moreover have "?r \<noteq> []" using ne sl by simp
  ultimately show ?thesis using res i4 by blast
qed

section \<open>Decimal text\<close>

lemma digit_char_value: "d < 10 \<Longrightarrow> of_char (digit_char d) = (48 + d :: nat)"
proof -
  assume "d < 10"
  then have "d \<in> {0, 1, 2, 3, 4, 5, 6, 7, 8, 9}" by auto
  then show ?thesis by (auto simp: digit_char_def)
qed

lemma decimal_value_str_nat: "decimal_value (str_nat n) = n"
proof (induction n rule: str_nat.induct)
  case (1 n)
  show ?case
  proof (cases "n < 10")
    case True
    then show ?thesis
      by (subst str_nat.simps) (simp add: decimal_value_def digit_char_value)
  next
    case False
    then have "decimal_value (str_nat (n div 10)) = n div 10" using 1 by simp
    moreover have "of_char (digit_char (n mod 10)) = (48 + n mod 10 :: nat)"
      by (simp add: digit_char_value)
    ultimately show ?thesis
      using False by (subst str_nat.simps) (simp add: decimal_value_def)
  qed
qed

section \<open>Grouping, joining and stripping\<close>


lemma map_of_group_append:
  "map_of (group_append t e d) u =
     (if u = t then Some ((case map_of d t of None \<Rightarrow> [] | Some es \<Rightarrow> es) @ [e])
      else map_of d u)"
  by (induction d) auto

lemma map_of_group_fold:
  "map_of (foldl (\<lambda>event_types event. group_append (type_of event) event event_types) d events) t =
     (case map_of d t of
        None \<Rightarrow> (if filter (\<lambda>e. type_of e = t) events = [] then None
                  else Some (filter (\<lambda>e. type_of e = t) events))
      | Some es \<Rightarrow> Some (es @ filter (\<lambda>e. type_of e = t) events))"
proof (induction events arbitrary: d)
  case Nil
  show ?case by (simp split: option.splits)
next
  case (Cons e events)
  show ?case
    by (simp add: Cons.IH map_of_group_append split: option.splits)
qed

lemma map_of_group_by_type:
  "map_of (group_by_type events) t =
     (if filter (\<lambda>e. type_of e = t) events = [] then None
      else Some (filter (\<lambda>e. type_of e = t) events))"
  by (simp add: group_by_type_def map_of_group_fold)

lemma sublist_join_str:
  assumes "s \<in> set parts"
  shows "sublist s (join_str sep parts)"
  using assms
proof (induction sep parts rule: join_str.induct)
  case (1 sep)
  then show ?case by simp
next
  case (2 sep x)
  then show ?case by simp
next
  case (3 sep x y ys)
  show ?case
  proof (cases "s = x")
    case True
    then show ?thesis by simp
  next
    case False
    with 3 have "sublist s (join_str sep (y # ys))" by simp
    then obtain ps ss where "join_str sep (y # ys) = ps @ s @ ss"
      by (auto simp: sublist_def)
    then have "join_str sep (x # y # ys) = (x @ sep @ ps) @ s @ ss" by simp
    then show ?thesis unfolding sublist_def by blast
  qed
qed

lemma set_join_str: "s \<in> set parts \<Longrightarrow> set s \<subseteq> set (join_str sep parts)"
  by (induction sep parts rule: join_str.induct) auto

lemma dropWhile_all_iff: "(\<forall>c\<in>set (dropWhile P s). P c) \<longleftrightarrow> (\<forall>c\<in>set s. P c)"
  by (induction s) auto

lemma strip_empty_iff: "strip s = [] \<longleftrightarrow> (\<forall>c\<in>set s. is_space c)"
proof -
  have "strip s = [] \<longleftrightarrow> (\<forall>c\<in>set (dropWhile is_space s). is_space c)"
    by (simp add: strip_def dropWhile_eq_Nil_conv)
  then show ?thesis by (simp only: dropWhile_all_iff)
qed

lemma dot_not_space: "\<not> is_space CHR ''.''"
  by (simp add: is_space_def)

section \<open>The shape of the narrative\<close>


lemma biography_dot: "s \<in> set (biography name description) \<Longrightarrow> CHR ''.'' \<in> set s"
  by (auto simp: biography_def split: if_splits)

lemma education_sentence_dot: "s \<in> set (education_sentence d) \<Longrightarrow> CHR ''.'' \<in> set s"
  by (auto simp: education_sentence_def Let_def split: option.splits if_splits)

lemma employment_sentence_dot: "s \<in> set (employment_sentence d) \<Longrightarrow> CHR ''.'' \<in> set s"
  by (auto simp: employment_sentence_def Let_def split: option.splits if_splits)

lemma award_sentence_dot: "s \<in> set (award_sentence d) \<Longrightarrow> CHR ''.'' \<in> set s"
  by (auto simp: award_sentence_def Let_def split: option.splits if_splits)

lemma other_sentences_dot: "s \<in> set (other_sentences d) \<Longrightarrow> CHR ''.'' \<in> set s"
  by (auto simp: other_sentences_def other_sentence_def split: if_splits)

lemma narrative_parts_dot:
  assumes "s \<in> set (narrative_parts events name description)"
  shows "CHR ''.'' \<in> set s"
  using assms biography_dot education_sentence_dot employment_sentence_dot
    award_sentence_dot other_sentences_dot
  unfolding narrative_parts_def Let_def set_append Un_iff by blast

lemma create_narrative_join:
  "create_narrative_from_events events name description =
     (if narrative_parts events name description = [] then fallback_narrative
      else join_str '' '' (narrative_parts events name description))"
proof (cases "narrative_parts events name description")
  case Nil
  then show ?thesis by (simp add: create_narrative_from_events_def strip_def)
next
  case (Cons s rest)
  then have s: "s \<in> set (narrative_parts events name description)" by simp
  then have "CHR ''.'' \<in> set s" by (rule narrative_parts_dot)
  with set_join_str [OF s, of "'' ''"]
  have "CHR ''.'' \<in> set (join_str '' '' (narrative_parts events name description))" by blast
  then have "strip (join_str '' '' (narrative_parts events name description)) \<noteq> []"
    using dot_not_space by (auto simp: strip_empty_iff)
  then show ?thesis using Cons by (simp add: create_narrative_from_events_def)
qed

lemma sentence_in_narrative:
  assumes "s \<in> set (narrative_parts events name description)"
  shows "sublist s (create_narrative_from_events events name description)"
proof -
  from assms have "narrative_parts events name description \<noteq> []" by auto
  then show ?thesis using assms by (simp add: create_narrative_join sublist_join_str)
qed

section \<open>The sentences of the three named groups\<close>


lemma field_str_truthy: "field_str x \<noteq> [] \<longleftrightarrow> truthy x"
  by (cases x) simp_all

lemma education_labels_map_filter:
  "concat (map education_label evs) =
     map (\<lambda>e. if truthy (organization e)
              then field_str (event_title e) @ '' from '' @ field_str (organization e)
              else field_str (event_title e))
       (filter (\<lambda>e. truthy (event_title e)) evs)"
  by (induction evs) (simp_all add: education_label_def Let_def field_str_truthy)

lemma employment_labels_map_filter:
  "concat (map employment_label evs) =
     map (\<lambda>e. if truthy (event_title e) \<and> truthy (organization e)
              then field_str (event_title e) @ '' at '' @ field_str (organization e)
              else if truthy (organization e) then ''worked at '' @ field_str (organization e)
              else field_str (event_title e))
       (filter (\<lambda>e. truthy (event_title e) \<or> truthy (organization e)) evs)"
  by (induction evs) (auto simp: employment_label_def Let_def field_str_truthy)

lemma education_sentence_group:
  "education_sentence (group_by_type events) =
     (let edu_parts = concat (map education_label
            (sort_key start_key (filter (\<lambda>e. type_of e = ''education'') events)))
      in if edu_parts = [] then []
         else if length edu_parts = 1 then [''Studied '' @ hd edu_parts @ ''.'']
         else [''Educational background includes '' @
               (join_str '', '' (butlast edu_parts) @ '' and '' @ last edu_parts) @ ''.''])"
proof (cases "filter (\<lambda>e. type_of e = ''education'') events = []")
  case True
  then show ?thesis by (simp add: education_sentence_def map_of_group_by_type)
next
  case False
  then show ?thesis by (simp add: education_sentence_def map_of_group_by_type Let_def)
qed

lemma employment_sentence_group:
  "employment_sentence (group_by_type events) =
     (let emp_parts = concat (map employment_label
            (sort_key start_key (filter (\<lambda>e. type_of e = ''employment'') events)))
      in if emp_parts = [] then []
         else if length emp_parts \<le> 3
         then [''Career includes '' @ join_str '', '' emp_parts @ ''.'']
         else [''Career includes '' @
               (join_str '', '' (take 3 emp_parts) @ '' and '' @
                str_nat (length emp_parts - 3) @ '' other positions'') @ ''.''])"
proof (cases "filter (\<lambda>e. type_of e = ''employment'') events = []")
  case True
  then show ?thesis by (simp add: employment_sentence_def map_of_group_by_type)
next
  case False
  then show ?thesis by (simp add: employment_sentence_def map_of_group_by_type Let_def)
qed

lemma award_sentence_group:
  "award_sentence (group_by_type events) =
     (let award_events = filter (\<lambda>e. type_of e = ''award'') events
      in if award_events = [] then []
         else if length award_events \<le> 5
         then (if filter (\<lambda>e. truthy (event_title e)) award_events = [] then []
               else [''Received awards: '' @
                     join_str '', '' (map (\<lambda>e. field_str (event_title e))
                        (filter (\<lambda>e. truthy (event_title e)) award_events)) @ ''.''])
         else [''Received '' @ str_nat (length award_events) @ '' awards and honors.''])"
proof (cases "filter (\<lambda>e. type_of e = ''award'') events = []")
  case True
  then show ?thesis by (simp add: award_sentence_def map_of_group_by_type)
next
  case False
  then show ?thesis by (simp add: award_sentence_def map_of_group_by_type Let_def)
qed

lemma education_in_parts:
  "s \<in> set (education_sentence (group_by_type events)) \<Longrightarrow>
   s \<in> set (narrative_parts events name description)"
  by (simp add: narrative_parts_def Let_def)

lemma employment_in_parts:
  "s \<in> set (employment_sentence (group_by_type events)) \<Longrightarrow>
   s \<in> set (narrative_parts events name description)"
  by (simp add: narrative_parts_def Let_def)

lemma award_in_parts:
  "s \<in> set (award_sentence (group_by_type events)) \<Longrightarrow>
   s \<in> set (narrative_parts events name description)"
  by (simp add: narrative_parts_def Let_def)

lemma sublist_trans_append:
  assumes "sublist (a @ b @ c) s"
  shows "sublist b s"
proof -
  from assms obtain ps ss where "s = ps @ (a @ b @ c) @ ss" by (auto simp: sublist_def)
  then have "s = (ps @ a) @ b @ (c @ ss)" by simp
  then show ?thesis unfolding sublist_def by blast
qed

section \<open>Evaluating the narrative on a concrete input\<close>

lemmas narrative_eval =
  create_narrative_from_events_def narrative_parts_def group_by_type_def type_of_def
  biography_def education_sentence_def education_label_def employment_sentence_def
  employment_label_def award_sentence_def other_sentences_def other_sentence_def
  start_key_def date_min_def fallback_narrative_def strip_def is_space_def Let_def

section \<open>The service across calls\<close>

lemma project_to_3d_unloaded:
  "\<not> models_loaded (self w) \<Longrightarrow>
   project_to_3d w v =
     (Inl (RuntimeError ''PCA/UMAP models not loaded. Call load_reduction_models() first.''), w)"
  by (simp add: project_to_3d_def)

lemma project_to_3d_loaded:
  assumes "models_loaded (self w)"
  shows "fst (project_to_3d w v) \<noteq>
    Inl (RuntimeError ''PCA/UMAP models not loaded. Call load_reduction_models() first.'')"
  using assms by (simp add: project_to_3d_def Let_def split: option.splits)

lemma project_to_3d_self: "self (snd (project_to_3d w v)) = self w"
  by (simp add: project_to_3d_def Let_def split: option.splits)

lemma call_transform_other: "b \<noteq> a \<Longrightarrow> snd (call_transform objs a v) b = objs b"
  by (simp add: call_transform_def Let_def)

lemma call_transform_pure: "pure_model (objs a) \<Longrightarrow> snd (call_transform objs a v) = objs"
  by (simp add: call_transform_def Let_def pure_model_def)

lemma project_to_3d_objects_other:
  assumes "pca_model (self w) \<noteq> Some a" and "umap_model (self w) \<noteq> Some a"
  shows "objects (snd (project_to_3d w v)) a = objects w a"
  using assms
  by (auto simp: project_to_3d_def Let_def call_transform_other split: option.splits)

lemma project_to_3d_pure:
  assumes "\<And>a. pca_model (self w) = Some a \<Longrightarrow> pure_model (objects w a)"
    and "\<And>a. umap_model (self w) = Some a \<Longrightarrow> pure_model (objects w a)"
  shows "snd (project_to_3d w v) = w"
  using assms
  by (auto simp: project_to_3d_def Let_def call_transform_pure split: option.splits)

lemma call_keeps_self: "\<not> is_load c \<Longrightarrow> self (snd (call np w c)) = self w"
  by (cases c) (simp_all add: project_to_3d_self)

lemma call_keeps_world: "\<not> is_load c \<Longrightarrow> \<not> is_project c \<Longrightarrow> snd (call np w c) = w"
  by (cases c) simp_all

lemma call_keeps_loaded:
  "models_loaded (self w) \<Longrightarrow> models_loaded (self (snd (call np w c)))"
  by (cases c) (simp_all add: load_reduction_models_def project_to_3d_self)

lemma run_keeps_loaded: "models_loaded (self w) \<Longrightarrow> models_loaded (self (run np w cmds))"
  unfolding run_def
  by (induction cmds arbitrary: w) (simp_all add: call_keeps_loaded)

lemma run_without_load:
  "list_all (\<lambda>c. \<not> is_load c) cmds \<Longrightarrow> self (run np w cmds) = self w"
  unfolding run_def
  by (induction cmds arbitrary: w) (simp_all add: call_keeps_self)

lemma call_pure_keeps_world:
  assumes "\<not> is_load c"
    and "\<And>a. pca_model (self w) = Some a \<Longrightarrow> pure_model (objects w a)"
    and "\<And>a. umap_model (self w) = Some a \<Longrightarrow> pure_model (objects w a)"
  shows "snd (call np w c) = w"
  using assms by (cases c) (simp_all add: project_to_3d_pure)

lemma run_pure_keeps_world:
  assumes "list_all (\<lambda>c. \<not> is_load c) cmds"
    and "\<And>a. pca_model (self w) = Some a \<Longrightarrow> pure_model (objects w a)"
    and "\<And>a. umap_model (self w) = Some a \<Longrightarrow> pure_model (objects w a)"
  shows "run np w cmds = w"
  using assms unfolding run_def
  by (induction cmds) (simp_all add: call_pure_keeps_world)

lemma pure_stand_ins: "pure_model truncating_model" "pure_model reversing_model"
  by (simp_all add: pure_model_def truncating_model_def reversing_model_def)

lemma project_pure_store:
  "project_to_3d (load_reduction_models (init_service () pure_store) (Some 0) (Some 1)) [1, 2, 3]
   = (Inr [2, 1], load_reduction_models (init_service () pure_store) (Some 0) (Some 1))"
proof -
  let ?w = "load_reduction_models (init_service () pure_store) (Some 0) (Some 1)"
  have "snd (project_to_3d ?w [1, 2, 3]) = ?w"
    by (rule project_to_3d_pure)
      (simp_all add: load_reduction_models_def init_service_def pure_store_def pure_stand_ins)
  moreover have "fst (project_to_3d ?w [1, 2, 3]) = Inr [2, 1]"
    by (simp add: project_to_3d_def load_reduction_models_def init_service_def pure_store_def
        call_transform_def truncating_model_def reversing_model_def Let_def)
  ultimately show ?thesis by (simp add: prod_eq_iff)
qed

section \<open>Claims about the nearest-cluster search\<close>

text \<open>
  C5. The claim is that for every query point and every non-empty list of cluster
  descriptors \<^verbatim>\<open>find_nearest_cluster\<close> returns a descriptor at minimum distance, the
  first one on ties. The code does so whenever some computed distance is finite
  (\<open>find_nearest_cluster_returns_first_minimum\<close>), and returns \<^verbatim>\<open>None\<close> when none is
  (\<open>find_nearest_cluster_None_iff\<close>): the running minimum starts at \<^verbatim>\<open>inf\<close> and
  \<^verbatim>\<open>inf < inf\<close> is false. For the single cluster centred at \<open>x = 2 ^ 700\<close> and the
  origin as query point the square overflows, the computed distance is \<^verbatim>\<open>inf\<close>, and
  the search on this non-empty list returns \<^verbatim>\<open>None\<close>.
\<close>

theorem find_nearest_cluster_overflow:
  "[\<lparr>cluster_id = 0, cluster_label = ''far'', avg_coordinates = (2 ^ 700, 0, 0)\<rparr>] \<noteq> [] \<and>
   norm_diff_where_exact (0, 0, 0) (2 ^ 700, 0, 0) = PosInf \<and>
   find_nearest_cluster norm_diff_where_exact (0, 0, 0)
     [\<lparr>cluster_id = 0, cluster_label = ''far'', avg_coordinates = (2 ^ 700, 0, 0)\<rparr>] = None"
proof -
  have d: "norm_diff_where_exact (0, 0, 0) (2 ^ 700, 0, 0) = PosInf"
    by (simp add: norm_diff_where_exact_def)
  then show ?thesis
    by (simp add: find_nearest_cluster_def nearest_step_def)
qed

text \<open>
  C10. For every query point, \<^verbatim>\<open>find_nearest_cluster\<close> on an empty list of cluster
  descriptors raises nothing: the loop body never runs and the initial value \<^verbatim>\<open>None\<close> of
  \<^verbatim>\<open>nearest_cluster\<close> is returned.
\<close>

theorem find_nearest_cluster_empty: "find_nearest_cluster norm_diff p [] = None"
  by (simp add: find_nearest_cluster_def)

section \<open>Claims about the similarity search\<close>

text \<open>
  C1 (amended). Let the two arrays of the corpus index have the same length \<open>N\<close>, let
  \<open>0 < k\<close>, and let \<^verbatim>\<open>np.argsort\<close> return an index permutation that sorts the computed
  distances. Then \<^verbatim>\<open>find_similar_persons\<close> returns the pairs (person id, computed
  distance) of \<open>min k N\<close> distinct rows, in ascending order of the computed distance, and
  no row left out has a smaller computed distance than a row returned. Rows at equal
  computed distance come in the order \<^verbatim>\<open>np.argsort\<close> leaves them in. When the point
  equals row \<open>i\<close>, its computed distance from itself being 0.0 as for every finite point,
  the first pair has distance 0.0; it is \<open>(ids ! i, 0.0)\<close> when row \<open>i\<close> is the only row
  whose computed distance is 0.0.
\<close>

theorem find_similar_persons_nearest_rows:
  assumes srt: "is_argsort (distances nd p coords) (argsort (distances nd p coords))"
    and len: "length ids = length coords"
    and k: "0 < k"
  shows "\<exists>js r.
      find_similar_persons nd argsort p ids coords k = Inr r \<and>
      r = map (\<lambda>j. (ids ! j, nd (coords ! j) p)) js \<and>
      length js = min (nat k) (length coords) \<and>
      distinct js \<and> (\<forall>j\<in>set js. j < length coords) \<and>
      sorted (map (\<lambda>e. sort_rank (snd e)) r) \<and>
      (\<forall>a\<in>set js. \<forall>b<length coords. b \<notin> set js \<longrightarrow>
          sort_rank (nd (coords ! a) p) \<le> sort_rank (nd (coords ! b) p)) \<and>
      (\<forall>i<length coords.
          coords ! i = p \<and> nd p p = Finite 0 \<and>
          list_all is_norm_value (distances nd p coords) \<longrightarrow>
            r \<noteq> [] \<and> snd (hd r) = Finite 0 \<and>
            ((\<forall>j<length coords. nd (coords ! j) p = Finite 0 \<longrightarrow> j = i) \<longrightarrow>
               hd r = (ids ! i, Finite 0)))"
proof -
  let ?ds = "distances nd p coords"
  let ?perm = "argsort ?ds"
  let ?js = "take (nat k) ?perm"
  let ?d = "\<lambda>j. nd (coords ! j) p"
  let ?r = "map (\<lambda>j. (ids ! j, ?d j)) ?js"
  note ap = is_argsort_props [OF srt]
  have n: "length ?perm = length coords" using ap(1) by (simp add: length_distances)
  have set0: "set ?perm = {0..<length coords}" using ap(3) by (simp add: length_distances)
  have in0: "j < length coords" if "j \<in> set ?perm" for j using that set0 by simp
  have inj: "j \<in> set ?perm" if "j \<in> set ?js" for j using that by (rule in_set_takeD)
  have srt0: "sorted (map (\<lambda>j. sort_rank (?d j)) ?perm)"
  proof -
    have "map (\<lambda>i. sort_rank (?ds ! i)) ?perm = map (\<lambda>j. sort_rank (?d j)) ?perm"
      by (rule map_cong) (use in0 in \<open>auto simp: distances_nth\<close>)
    with ap(4) show ?thesis by (simp only:)
  qed
  have res: "find_similar_persons nd argsort p ids coords k = Inr ?r"
    using find_similar_persons_rows [where argsort = argsort and k = k, OF srt len] k
    by (simp add: slice_to_pos)
  have l: "length ?js = min (nat k) (length coords)" using n by simp
  have dj: "distinct ?js" using ap(2) by (rule distinct_take)
  have bj: "\<forall>j\<in>set ?js. j < length coords" using inj in0 by blast
  have sr: "sorted (map (\<lambda>e. sort_rank (snd e)) ?r)"
  proof -
    have "map (\<lambda>e. sort_rank (snd e)) ?r = take (nat k) (map (\<lambda>j. sort_rank (?d j)) ?perm)"
      by (simp add: take_map comp_def)
    with srt0 show ?thesis by (simp add: sorted_wrt_take)
  qed
  have mn: "\<forall>a\<in>set ?js. \<forall>b<length coords. b \<notin> set ?js \<longrightarrow>
      sort_rank (?d a) \<le> sort_rank (?d b)"
  proof (intro ballI allI impI)
    fix a b assume a: "a \<in> set ?js" and b: "b < length coords" "b \<notin> set ?js"
    from b(1) have "b \<in> set ?perm" using set0 by simp
    then have "b \<in> set (drop (nat k) ?perm)" using b(2) by (rule take_rest_in_drop)
    with srt0 a show "sort_rank (?d a) \<le> sort_rank (?d b)" by (rule sorted_map_take_le_drop)
  qed
  have ex: "?r \<noteq> [] \<and> snd (hd ?r) = Finite 0 \<and>
          ((\<forall>j<length coords. ?d j = Finite 0 \<longrightarrow> j = i) \<longrightarrow> hd ?r = (ids ! i, Finite 0))"
    if i: "i < length coords"
      and h: "coords ! i = p \<and> nd p p = Finite 0 \<and> list_all is_norm_value ?ds" for i
  proof -
    from i n have ne0: "?perm \<noteq> []" by auto
    with k have ne: "?js \<noteq> []" by simp
    have hd_eq: "hd ?js = hd ?perm" using k by (simp add: hd_take)
    have i0: "i \<in> set ?perm" using i set0 by simp
    have h0: "hd ?perm \<in> set ?perm" using ne0 by simp
    have di: "?d i = Finite 0" using h by simp
    have "sort_rank (?d (hd ?perm)) \<le> sort_rank (?d i)"
      using srt0 i0 by (rule sorted_map_head_least)
    moreover have "is_norm_value (?d (hd ?perm))"
    proof -
      have "is_norm_value (?ds ! hd ?perm)"
        using h in0 [OF h0] by (simp add: list_all_length length_distances)
      then show ?thesis using in0 [OF h0] by (simp add: distances_nth)
    qed
    ultimately have dh: "?d (hd ?perm) = Finite 0"
      using di by (simp add: norm_value_rank_zero)
    have hr: "hd ?r = (ids ! hd ?perm, Finite 0)" using ne dh hd_eq by (simp add: hd_map)
    have un: "hd ?r = (ids ! i, Finite 0)"
      if "\<forall>j<length coords. ?d j = Finite 0 \<longrightarrow> j = i"
      using that in0 [OF h0] dh hr by auto
    show ?thesis using ne hr un by simp
  qed
  show ?thesis
    apply (rule exI [of _ ?js], rule exI [of _ ?r])
    using res l dj bj sr mn ex by blast
qed

text \<open>
  Three rows at the computed distances 2, 0 and 1 from the origin: with \<open>k = 2\<close> the
  result is the second row, then the third.
\<close>

theorem find_similar_persons_nearest_rows_witness:
  "is_argsort (distances norm_diff_where_exact (0, 0, 0) [(2, 0, 0), (0, 0, 0), (0, 1, 0)])
     (stable_argsort
        (distances norm_diff_where_exact (0, 0, 0) [(2, 0, 0), (0, 0, 0), (0, 1, 0)])) \<and>
   length [''a'', ''b'', ''c''] = length [(2, 0, 0), (0, 0, 0), (0, 1, 0) :: coordinates_3d] \<and>
   (0 :: int) < 2 \<and>
   find_similar_persons norm_diff_where_exact stable_argsort (0, 0, 0) [''a'', ''b'', ''c'']
       [(2, 0, 0), (0, 0, 0), (0, 1, 0)] 2 = Inr [(''b'', Finite 0), (''c'', Finite 1)]"
proof -
  let ?coords = "[(2, 0, 0), (0, 0, 0), (0, 1, 0) :: coordinates_3d]"
  have ds: "distances norm_diff_where_exact (0, 0, 0) ?coords =
      [Finite (sqrt 4), Finite 0, Finite 1]"
    by (simp add: distances_def norm_diff_where_exact_def)
  have perm: "stable_argsort [Finite (sqrt 4), Finite 0, Finite 1] = [1, 2, 0]"
    by (simp add: stable_argsort_def)
  have h1: "is_argsort (distances norm_diff_where_exact (0, 0, 0) ?coords)
     (stable_argsort (distances norm_diff_where_exact (0, 0, 0) ?coords))"
    by (rule is_argsort_stable)
  have h2: "length [''a'', ''b'', ''c''] = length ?coords" by simp
  have h3: "(0 :: int) < 2" by simp
  from find_similar_persons_nearest_rows
    [where argsort = stable_argsort and nd = norm_diff_where_exact, OF h1 h2 h3]
  have "\<exists>r. find_similar_persons norm_diff_where_exact stable_argsort (0, 0, 0)
       [''a'', ''b'', ''c''] ?coords 2 = Inr r"
    by (elim exE conjE) (rule exI, assumption)
  then obtain r where
    r: "find_similar_persons norm_diff_where_exact stable_argsort (0, 0, 0) [''a'', ''b'', ''c'']
       ?coords 2 = Inr r" ..
  have res: "find_similar_persons norm_diff_where_exact stable_argsort (0, 0, 0)
       [''a'', ''b'', ''c''] ?coords 2 = Inr [(''b'', Finite 0), (''c'', Finite 1)]"
    unfolding find_similar_persons_def Let_def ds perm by (simp add: slice_to_def)
  with r have eq: "r = [(''b'', Finite 0), (''c'', Finite 1)]" by simp
  show ?thesis
  proof (intro conjI)
    show "is_argsort (distances norm_diff_where_exact (0, 0, 0) ?coords)
       (stable_argsort (distances norm_diff_where_exact (0, 0, 0) ?coords))" by (rule h1)
    show "length [''a'', ''b'', ''c''] = length ?coords" by (rule h2)
    show "(0 :: int) < 2" by (rule h3)
    show "find_similar_persons norm_diff_where_exact stable_argsort (0, 0, 0)
       [''a'', ''b'', ''c''] ?coords 2 = Inr [(''b'', Finite 0), (''c'', Finite 1)]"
      using r eq by (simp only:)
  qed
qed

text \<open>
  C1 as stated fails on four rows that all equal the query point. With ties left in row
  order the first pair is the one of row 0, not \<open>(ids ! 3, 0)\<close>. With ties left in
  descending row order, which the default sorting kind is free to do, the rows at equal
  distance come in reverse row order and the first pair is the one of row 3, not
  \<open>(ids ! 0, 0)\<close>. Whatever the order, the first pair misses some row equal to the
  point (\<open>four_rows_at_the_point\<close>).
\<close>

theorem find_similar_persons_ties_counterexample:
  "[(0, 0, 0), (0, 0, 0), (0, 0, 0), (0, 0, 0) :: coordinates_3d] ! 3 = (0, 0, 0) \<and>
   find_similar_persons norm_diff_where_exact stable_argsort (0, 0, 0)
       [''a'', ''b'', ''c'', ''d''] [(0, 0, 0), (0, 0, 0), (0, 0, 0), (0, 0, 0)] 4
     = Inr [(''a'', Finite 0), (''b'', Finite 0), (''c'', Finite 0), (''d'', Finite 0)] \<and>
   (''a'', Finite 0) \<noteq> ([''a'', ''b'', ''c'', ''d''] ! 3, Finite 0) \<and>
   [(0, 0, 0), (0, 0, 0), (0, 0, 0), (0, 0, 0) :: coordinates_3d] ! 0 = (0, 0, 0) \<and>
   is_argsort
     (distances norm_diff_where_exact (0, 0, 0) [(0, 0, 0), (0, 0, 0), (0, 0, 0), (0, 0, 0)])
     (descending_ties_argsort
        (distances norm_diff_where_exact (0, 0, 0)
           [(0, 0, 0), (0, 0, 0), (0, 0, 0), (0, 0, 0)])) \<and>
   find_similar_persons norm_diff_where_exact descending_ties_argsort (0, 0, 0)
       [''a'', ''b'', ''c'', ''d''] [(0, 0, 0), (0, 0, 0), (0, 0, 0), (0, 0, 0)] 4
     = Inr [(''d'', Finite 0), (''c'', Finite 0), (''b'', Finite 0), (''a'', Finite 0)] \<and>
   (''d'', Finite 0) \<noteq> ([''a'', ''b'', ''c'', ''d''] ! 0, Finite 0)"
proof -
  let ?coords = "[(0, 0, 0), (0, 0, 0), (0, 0, 0), (0, 0, 0) :: coordinates_3d]"
  have ds: "distances norm_diff_where_exact (0, 0, 0) ?coords =
      [Finite 0, Finite 0, Finite 0, Finite 0]"
    by (simp add: distances_def norm_diff_where_exact_def)
  have up: "stable_argsort [Finite 0, Finite 0, Finite 0, Finite 0] = [0, 1, 2, 3]"
    by (simp add: stable_argsort_def)
  have down: "descending_ties_argsort [Finite 0, Finite 0, Finite 0, Finite 0] = [3, 2, 1, 0]"
    by (simp add: descending_ties_argsort_def)
  have a: "find_similar_persons norm_diff_where_exact stable_argsort (0, 0, 0)
       [''a'', ''b'', ''c'', ''d''] ?coords 4
     = Inr [(''a'', Finite 0), (''b'', Finite 0), (''c'', Finite 0), (''d'', Finite 0)]"
    unfolding find_similar_persons_def Let_def ds up by (simp add: slice_to_def)
  have b: "find_similar_persons norm_diff_where_exact descending_ties_argsort (0, 0, 0)
       [''a'', ''b'', ''c'', ''d''] ?coords 4
     = Inr [(''d'', Finite 0), (''c'', Finite 0), (''b'', Finite 0), (''a'', Finite 0)]"
    unfolding find_similar_persons_def Let_def ds down by (simp add: slice_to_def)
  have c: "is_argsort (distances norm_diff_where_exact (0, 0, 0) ?coords)
     (descending_ties_argsort (distances norm_diff_where_exact (0, 0, 0) ?coords))"
    by (rule is_argsort_descending_ties)
  show ?thesis using a b c by simp
qed

text \<open>
  C2 (amended). Under the same conditions on the index and on \<^verbatim>\<open>np.argsort\<close>, the call
  returns normally for every integer \<open>k\<close>; the result is empty for \<open>k = 0\<close>, has
  exactly \<open>min k N\<close> entries for every \<open>k \<ge> 0\<close> (all \<open>N\<close> entries when \<open>k\<close> exceeds
  \<open>N\<close>), and for \<open>k < 0\<close> has \<open>max 0 (N + k)\<close> entries, as the slice \<^verbatim>\<open>[:k]\<close> drops the
  last \<open>-k\<close> indices.
\<close>

theorem find_similar_persons_length:
  assumes srt: "is_argsort (distances nd p coords) (argsort (distances nd p coords))"
    and len: "length ids = length coords"
  shows "\<exists>r. find_similar_persons nd argsort p ids coords k = Inr r \<and>
           (k = 0 \<longrightarrow> r = []) \<and>
           (0 \<le> k \<longrightarrow> int (length r) = min k (int (length coords))) \<and>
           (k < 0 \<longrightarrow> int (length r) = max 0 (int (length coords) + k))"
proof -
  let ?perm = "argsort (distances nd p coords)"
  let ?r = "map (\<lambda>j. (ids ! j, nd (coords ! j) p)) (slice_to k ?perm)"
  have n: "length ?perm = length coords"
    using is_argsort_props(1) [OF srt] by (simp add: length_distances)
  have res: "find_similar_persons nd argsort p ids coords k = Inr ?r"
    by (rule find_similar_persons_rows [where argsort = argsort and k = k, OF srt len])
  have "k = 0 \<longrightarrow> ?r = []" by (simp add: slice_to_def)
  moreover have "0 \<le> k \<longrightarrow> int (length ?r) = min k (int (length coords))"
    using n by (auto simp: slice_to_pos)
  moreover have "k < 0 \<longrightarrow> int (length ?r) = max 0 (int (length coords) + k)"
    using n by (auto simp: slice_to_neg)
  ultimately show ?thesis using res by blast
qed

text \<open>A corpus of two rows: \<open>k = 5\<close> returns both of them.\<close>

theorem find_similar_persons_length_witness:
  "is_argsort (distances norm_diff_where_exact (0, 0, 0) [(1, 0, 0), (0, 0, 0)])
     (stable_argsort (distances norm_diff_where_exact (0, 0, 0) [(1, 0, 0), (0, 0, 0)])) \<and>
   length [''a'', ''b''] = length [(1, 0, 0), (0, 0, 0) :: coordinates_3d] \<and>
   find_similar_persons norm_diff_where_exact stable_argsort (0, 0, 0) [''a'', ''b'']
       [(1, 0, 0), (0, 0, 0)] 5
     = Inr [(''b'', Finite 0), (''a'', Finite 1)]"
proof -
  let ?coords = "[(1, 0, 0), (0, 0, 0) :: coordinates_3d]"
  have ds: "distances norm_diff_where_exact (0, 0, 0) ?coords = [Finite 1, Finite 0]"
    by (simp add: distances_def norm_diff_where_exact_def)
  have perm: "stable_argsort [Finite 1, Finite 0] = [1, 0]"
    by (simp add: stable_argsort_def)
  have h1: "is_argsort (distances norm_diff_where_exact (0, 0, 0) ?coords)
     (stable_argsort (distances norm_diff_where_exact (0, 0, 0) ?coords))"
    by (rule is_argsort_stable)
  have h2: "length [''a'', ''b''] = length ?coords" by simp
  from find_similar_persons_length
    [where argsort = stable_argsort and nd = norm_diff_where_exact and k = 5, OF h1 h2]
  have "\<exists>r. find_similar_persons norm_diff_where_exact stable_argsort (0, 0, 0)
       [''a'', ''b''] ?coords 5 = Inr r"
    by (elim exE conjE) (rule exI, assumption)
  then obtain r where
    r: "find_similar_persons norm_diff_where_exact stable_argsort (0, 0, 0) [''a'', ''b'']
       ?coords 5 = Inr r" ..
  have res: "find_similar_persons norm_diff_where_exact stable_argsort (0, 0, 0)
       [''a'', ''b''] ?coords 5 = Inr [(''b'', Finite 0), (''a'', Finite 1)]"
    unfolding find_similar_persons_def Let_def ds perm by (simp add: slice_to_def)
  with r have eq: "r = [(''b'', Finite 0), (''a'', Finite 1)]" by simp
  show ?thesis
  proof (intro conjI)
    show "is_argsort (distances norm_diff_where_exact (0, 0, 0) ?coords)
       (stable_argsort (distances norm_diff_where_exact (0, 0, 0) ?coords))" by (rule h1)
    show "length [''a'', ''b''] = length ?coords" by (rule h2)
    show "find_similar_persons norm_diff_where_exact stable_argsort (0, 0, 0)
       [''a'', ''b''] ?coords 5 = Inr [(''b'', Finite 0), (''a'', Finite 1)]"
      using r eq by (simp only:)
  qed
qed

text \<open>
  A negative \<open>k\<close> does not give the empty sequence: with two rows and \<open>k = -1\<close> the slice
  drops the last index only and one pair is returned.
\<close>

theorem find_similar_persons_negative_k_counterexample:
  "(- 1 :: int) \<le> 0 \<and>
   find_similar_persons norm_diff_where_exact stable_argsort (0, 0, 0) [''a'', ''b'']
       [(1, 0, 0), (0, 0, 0)] (- 1)
     = Inr [(''b'', Finite 0)] \<and>
   [(''b'', Finite 0)] \<noteq> []"
proof -
  let ?coords = "[(1, 0, 0), (0, 0, 0) :: coordinates_3d]"
  have ds: "distances norm_diff_where_exact (0, 0, 0) ?coords = [Finite 1, Finite 0]"
    by (simp add: distances_def norm_diff_where_exact_def)
  have perm: "stable_argsort [Finite 1, Finite 0] = [1, 0]"
    by (simp add: stable_argsort_def)
  have "find_similar_persons norm_diff_where_exact stable_argsort (0, 0, 0) [''a'', ''b'']
       ?coords (- 1) = Inr [(''b'', Finite 0)]"
    unfolding find_similar_persons_def Let_def ds perm by (simp add: slice_to_def)
  then show ?thesis by simp
qed

section \<open>Claims about narrative synthesis\<close>

text \<open>
  C3 (amended). In narrative synthesis the education events are taken in ascending order of
  start date, and every one of them with a non-empty title contributes a label: ``title
  from organization'' when the organization is present too, else the title alone. An
  education event with an empty title contributes no label, also when its organization is
  present. A single label yields the sentence ``Studied item.''; several labels yield
  ``Educational background includes item1, item2, ... and itemN.'', all but the last
  separated by commas and the last joined with ``and''; no label yields no education
  sentence. The sentence is part of the narrative returned.
\<close>

theorem education_sentence_rule:
  assumes lab: "labels =
      map (\<lambda>e. if truthy (organization e)
               then field_str (event_title e) @ '' from '' @ field_str (organization e)
               else field_str (event_title e))
        (filter (\<lambda>e. truthy (event_title e))
           (sort_key start_key (filter (\<lambda>e. type_of e = ''education'') events)))"
  shows "(labels = [] \<longrightarrow> education_sentence (group_by_type events) = []) \<and>
    (length labels = 1 \<longrightarrow>
       education_sentence (group_by_type events) = [''Studied '' @ hd labels @ ''.''] \<and>
       sublist (''Studied '' @ hd labels @ ''.'')
         (create_narrative_from_events events name description)) \<and>
    (1 < length labels \<longrightarrow>
       education_sentence (group_by_type events) =
         [''Educational background includes '' @ join_str '', '' (butlast labels) @
          '' and '' @ last labels @ ''.''] \<and>
       sublist (''Educational background includes '' @ join_str '', '' (butlast labels) @
                '' and '' @ last labels @ ''.'')
         (create_narrative_from_events events name description))"
proof -
  have parts: "concat (map education_label
      (sort_key start_key (filter (\<lambda>e. type_of e = ''education'') events))) = labels"
    by (simp only: education_labels_map_filter lab)
  have sen: "education_sentence (group_by_type events) =
     (if labels = [] then []
      else if length labels = 1 then [''Studied '' @ hd labels @ ''.'']
      else [''Educational background includes '' @
            (join_str '', '' (butlast labels) @ '' and '' @ last labels) @ ''.''])"
    by (simp only: education_sentence_group parts Let_def)
  have emitted: "sublist s (create_narrative_from_events events name description)"
    if "education_sentence (group_by_type events) = [s]" for s
    using that by (intro sentence_in_narrative education_in_parts) simp
  have one: "education_sentence (group_by_type events) = [''Studied '' @ hd labels @ ''.'']"
    if "length labels = 1"
    using that sen by auto
  have many: "education_sentence (group_by_type events) =
         [''Educational background includes '' @ join_str '', '' (butlast labels) @
          '' and '' @ last labels @ ''.'']"
    if "1 < length labels"
    using that sen by auto
  show ?thesis
    using sen one many emitted by auto
qed

text \<open>One education event with a title and an organization.\<close>

theorem education_sentence_rule_witness:
  "[''PhD from MIT''] =
      map (\<lambda>e. if truthy (organization e)
               then field_str (event_title e) @ '' from '' @ field_str (organization e)
               else field_str (event_title e))
        (filter (\<lambda>e. truthy (event_title e))
           (sort_key start_key (filter (\<lambda>e. type_of e = ''education'')
              [\<lparr>event_type = Some ''education'', event_title = Some ''PhD'',
                organization = Some ''MIT'', start_date = None\<rparr>]))) \<and>
   create_narrative_from_events
     [\<lparr>event_type = Some ''education'', event_title = Some ''PhD'',
       organization = Some ''MIT'', start_date = None\<rparr>] None None
     = ''Studied PhD from MIT.''"
proof -
  have h: "[''PhD from MIT''] =
      map (\<lambda>e. if truthy (organization e)
               then field_str (event_title e) @ '' from '' @ field_str (organization e)
               else field_str (event_title e))
        (filter (\<lambda>e. truthy (event_title e))
           (sort_key start_key (filter (\<lambda>e. type_of e = ''education'')
              [\<lparr>event_type = Some ''education'', event_title = Some ''PhD'',
                organization = Some ''MIT'', start_date = None\<rparr>])))"
    by (simp add: type_of_def)
  from education_sentence_rule [OF h, of None None]
  have "education_sentence (group_by_type
     [\<lparr>event_type = Some ''education'', event_title = Some ''PhD'',
       organization = Some ''MIT'', start_date = None\<rparr>]) = [''Studied PhD from MIT.'']"
    by simp
  then show ?thesis
    using h by (simp add: create_narrative_join narrative_parts_def biography_def
        employment_sentence_def award_sentence_def other_sentences_def other_sentence_def
        group_by_type_def type_of_def)
qed


text \<open>
  C3 as stated fails for an education event that has an organization and an empty title:
  it contributes no label, so that for this event alone the narrative is the fallback
  sentence and not ``Studied MIT.''.
\<close>

theorem education_organization_only_counterexample:
  "truthy (organization \<lparr>event_type = Some ''education'', event_title = Some '''',
       organization = Some ''MIT'', start_date = None\<rparr>) \<and>
   create_narrative_from_events
     [\<lparr>event_type = Some ''education'', event_title = Some '''',
       organization = Some ''MIT'', start_date = None\<rparr>] None None
     = ''This person has a diverse background with various life experiences.'' \<and>
   ''This person has a diverse background with various life experiences.'' \<noteq> ''Studied MIT.''"
  by (simp add: narrative_eval)

text \<open>
  C6. Narrative synthesis returns a non-empty string for every input (the model has no
  raising branch: the method is total on events whose fields have the modelled types).
  Whenever the joined sentences are empty or whitespace only, the result is exactly the
  fallback sentence; this is so in particular for no events, no name and no description.
\<close>

theorem create_narrative_nonempty:
  "create_narrative_from_events events name description \<noteq> [] \<and>
   (strip (join_str '' '' (narrative_parts events name description)) = [] \<longrightarrow>
      create_narrative_from_events events name description =
        ''This person has a diverse background with various life experiences.'') \<and>
   (\<not> truthy name \<and> \<not> truthy description \<longrightarrow>
      create_narrative_from_events [] name description =
        ''This person has a diverse background with various life experiences.'')"
proof -
  let ?narrative = "join_str '' '' (narrative_parts events name description)"
  have ne: "create_narrative_from_events events name description \<noteq> []"
  proof (cases "strip ?narrative = []")
    case True
    then show ?thesis by (simp add: create_narrative_from_events_def fallback_narrative_def)
  next
    case False
    then have "?narrative \<noteq> []" by (auto simp: strip_def)
    with False show ?thesis by (simp add: create_narrative_from_events_def)
  qed
  have fb: "create_narrative_from_events events name description =
        ''This person has a diverse background with various life experiences.''"
    if "strip ?narrative = []"
    using that by (simp add: create_narrative_from_events_def fallback_narrative_def)
  have none: "create_narrative_from_events [] name description =
        ''This person has a diverse background with various life experiences.''"
    if "\<not> truthy name \<and> \<not> truthy description"
  proof -
    have "narrative_parts [] name description = []"
      using that
      by (simp add: narrative_parts_def biography_def group_by_type_def education_sentence_def
          employment_sentence_def award_sentence_def other_sentences_def)
    then show ?thesis by (simp add: create_narrative_join fallback_narrative_def)
  qed
  show ?thesis using ne fb none by blast
qed


theorem create_narrative_nonempty_witness:
  "\<not> truthy None \<and>
   create_narrative_from_events [] None None =
     ''This person has a diverse background with various life experiences.''"
  using create_narrative_nonempty [of "[]" None None] by simp


text \<open>
  C7 (amended). The employment events are taken in ascending order of start date; each
  one with a title or an organization yields a labelled item. With one to three items the
  sentence is ``Career includes a, b, c.'' listing all of them; with more than three it
  lists exactly the first three, followed by ``and K other positions'' with K the number
  of remaining items. In particular an employment group of four events, each of them with
  a title or an organization, produces a narrative containing ``and 1 other positions''.
\<close>

theorem employment_sentence_rule:
  assumes lab: "labels =
      map (\<lambda>e. if truthy (event_title e) \<and> truthy (organization e)
               then field_str (event_title e) @ '' at '' @ field_str (organization e)
               else if truthy (organization e) then ''worked at '' @ field_str (organization e)
               else field_str (event_title e))
        (filter (\<lambda>e. truthy (event_title e) \<or> truthy (organization e))
           (sort_key start_key (filter (\<lambda>e. type_of e = ''employment'') events)))"
  shows "(labels = [] \<longrightarrow> employment_sentence (group_by_type events) = []) \<and>
    (labels \<noteq> [] \<and> length labels \<le> 3 \<longrightarrow>
       employment_sentence (group_by_type events) =
         [''Career includes '' @ join_str '', '' labels @ ''.''] \<and>
       sublist (''Career includes '' @ join_str '', '' labels @ ''.'')
         (create_narrative_from_events events name description)) \<and>
    (3 < length labels \<longrightarrow>
       employment_sentence (group_by_type events) =
         [''Career includes '' @ join_str '', '' (take 3 labels) @ '' and '' @
          str_nat (length labels - 3) @ '' other positions.''] \<and>
       sublist (''Career includes '' @ join_str '', '' (take 3 labels) @ '' and '' @
                str_nat (length labels - 3) @ '' other positions.'')
         (create_narrative_from_events events name description)) \<and>
    (length (filter (\<lambda>e. type_of e = ''employment'') events) = 4 \<and>
     list_all (\<lambda>e. type_of e = ''employment'' \<longrightarrow>
                 truthy (event_title e) \<or> truthy (organization e)) events \<longrightarrow>
       sublist ''and 1 other positions''
         (create_narrative_from_events events name description))"
proof -
  have parts: "concat (map employment_label
      (sort_key start_key (filter (\<lambda>e. type_of e = ''employment'') events))) = labels"
    by (simp only: employment_labels_map_filter lab)
  have sen: "employment_sentence (group_by_type events) =
     (if labels = [] then []
      else if length labels \<le> 3 then [''Career includes '' @ join_str '', '' labels @ ''.'']
      else [''Career includes '' @
            (join_str '', '' (take 3 labels) @ '' and '' @
             str_nat (length labels - 3) @ '' other positions'') @ ''.''])"
    by (simp only: employment_sentence_group parts Let_def)
  have emitted: "sublist s (create_narrative_from_events events name description)"
    if "employment_sentence (group_by_type events) = [s]" for s
    using that by (intro sentence_in_narrative employment_in_parts) simp
  have few: "employment_sentence (group_by_type events) =
         [''Career includes '' @ join_str '', '' labels @ ''.'']"
    if "labels \<noteq> [] \<and> length labels \<le> 3"
    using that sen by simp
  have many: "employment_sentence (group_by_type events) =
         [''Career includes '' @ join_str '', '' (take 3 labels) @ '' and '' @
          str_nat (length labels - 3) @ '' other positions.'']"
    if "3 < length labels"
    using that sen by auto
  have four: "sublist ''and 1 other positions''
         (create_narrative_from_events events name description)"
    if l: "length labels = 4"
  proof -
    have "str_nat (length labels - 3) = ''1''"
      using l by (simp add: str_nat.simps digit_char_def)
    with many l have "employment_sentence (group_by_type events) =
         [(''Career includes '' @ join_str '', '' (take 3 labels) @ '' '') @
          ''and 1 other positions'' @ ''.'']"
      by simp
    then have "sublist ((''Career includes '' @ join_str '', '' (take 3 labels) @ '' '') @
          ''and 1 other positions'' @ ''.'')
        (create_narrative_from_events events name description)"
      by (rule emitted)
    then show ?thesis by (rule sublist_trans_append)
  qed
  have group4: "length labels = 4"
    if g: "length (filter (\<lambda>e. type_of e = ''employment'') events) = 4 \<and>
      list_all (\<lambda>e. type_of e = ''employment'' \<longrightarrow>
                 truthy (event_title e) \<or> truthy (organization e)) events"
  proof -
    let ?emp = "sort_key start_key (filter (\<lambda>e. type_of e = ''employment'') events)"
    have "\<forall>e\<in>set ?emp. truthy (event_title e) \<or> truthy (organization e)"
      using g by (auto simp: list_all_iff)
    then have "filter (\<lambda>e. truthy (event_title e) \<or> truthy (organization e)) ?emp = ?emp"
      by (simp only: filter_id_conv)
    then show ?thesis using g by (simp add: lab)
  qed
  show ?thesis
    using sen few many four group4 emitted by auto
qed

text \<open>
  Four employment events with a title, given out of date order: the sentence lists the
  three earliest and counts one other position.
\<close>

theorem employment_sentence_rule_witness:
  "[''A at X'', ''B'', ''worked at Y'', ''D''] =
      map (\<lambda>e. if truthy (event_title e) \<and> truthy (organization e)
               then field_str (event_title e) @ '' at '' @ field_str (organization e)
               else if truthy (organization e) then ''worked at '' @ field_str (organization e)
               else field_str (event_title e))
        (filter (\<lambda>e. truthy (event_title e) \<or> truthy (organization e))
           (sort_key start_key (filter (\<lambda>e. type_of e = ''employment'')
              [\<lparr>event_type = Some ''employment'', event_title = Some ''D'',
                organization = None, start_date = Some (2004, 1, 1)\<rparr>,
               \<lparr>event_type = Some ''employment'', event_title = Some ''A'',
                organization = Some ''X'', start_date = None\<rparr>,
               \<lparr>event_type = Some ''employment'', event_title = Some ''B'',
                organization = None, start_date = Some (2002, 5, 1)\<rparr>,
               \<lparr>event_type = Some ''employment'', event_title = None,
                organization = Some ''Y'', start_date = Some (2002, 6, 1)\<rparr>]))) \<and>
   create_narrative_from_events
     [\<lparr>event_type = Some ''employment'', event_title = Some ''D'',
       organization = None, start_date = Some (2004, 1, 1)\<rparr>,
      \<lparr>event_type = Some ''employment'', event_title = Some ''A'',
       organization = Some ''X'', start_date = None\<rparr>,
      \<lparr>event_type = Some ''employment'', event_title = Some ''B'',
       organization = None, start_date = Some (2002, 5, 1)\<rparr>,
      \<lparr>event_type = Some ''employment'', event_title = None,
       organization = Some ''Y'', start_date = Some (2002, 6, 1)\<rparr>] None None
     = ''Career includes A at X, B, worked at Y and 1 other positions.''"
proof -
  let ?events = "[\<lparr>event_type = Some ''employment'', event_title = Some ''D'',
       organization = None, start_date = Some (2004, 1, 1)\<rparr>,
      \<lparr>event_type = Some ''employment'', event_title = Some ''A'',
       organization = Some ''X'', start_date = None\<rparr>,
      \<lparr>event_type = Some ''employment'', event_title = Some ''B'',
       organization = None, start_date = Some (2002, 5, 1)\<rparr>,
      \<lparr>event_type = Some ''employment'', event_title = None,
       organization = Some ''Y'', start_date = Some (2002, 6, 1 :: nat)\<rparr>]"
  have h: "[''A at X'', ''B'', ''worked at Y'', ''D''] =
      map (\<lambda>e. if truthy (event_title e) \<and> truthy (organization e)
               then field_str (event_title e) @ '' at '' @ field_str (organization e)
               else if truthy (organization e) then ''worked at '' @ field_str (organization e)
               else field_str (event_title e))
        (filter (\<lambda>e. truthy (event_title e) \<or> truthy (organization e))
           (sort_key start_key (filter (\<lambda>e. type_of e = ''employment'') ?events)))"
    by (simp add: type_of_def start_key_def date_min_def)
  from employment_sentence_rule [OF h, of None None]
  have "employment_sentence (group_by_type ?events) =
     [''Career includes A at X, B, worked at Y and 1 other positions.'']"
    by (simp add: str_nat.simps digit_char_def)
  then show ?thesis
    using h by (simp add: create_narrative_join narrative_parts_def biography_def
        education_sentence_def award_sentence_def other_sentences_def other_sentence_def
        group_by_type_def type_of_def)
qed


text \<open>
  C7 as stated fails for an employment group of four events of which one has neither a
  title nor an organization: it yields three items, and the sentence lists them with no
  count of other positions.
\<close>

theorem employment_blank_event_counterexample:
  "length (filter (\<lambda>e. type_of e = ''employment'')
      [\<lparr>event_type = Some ''employment'', event_title = Some ''A'',
        organization = None, start_date = None\<rparr>,
       \<lparr>event_type = Some ''employment'', event_title = Some ''B'',
        organization = None, start_date = None\<rparr>,
       \<lparr>event_type = Some ''employment'', event_title = Some '''',
        organization = None, start_date = None\<rparr>,
       \<lparr>event_type = Some ''employment'', event_title = Some ''C'',
        organization = None, start_date = None\<rparr>]) = 4 \<and>
   create_narrative_from_events
      [\<lparr>event_type = Some ''employment'', event_title = Some ''A'',
        organization = None, start_date = None\<rparr>,
       \<lparr>event_type = Some ''employment'', event_title = Some ''B'',
        organization = None, start_date = None\<rparr>,
       \<lparr>event_type = Some ''employment'', event_title = Some '''',
        organization = None, start_date = None\<rparr>,
       \<lparr>event_type = Some ''employment'', event_title = Some ''C'',
        organization = None, start_date = None\<rparr>] None None
     = ''Career includes A, B, C.'' \<and>
   \<not> sublist ''and 1 other positions'' ''Career includes A, B, C.''"
proof -
  have "\<not> sublist ''and 1 other positions'' ''Career includes A, B, C.''"
    by (simp add: sublist_code)
  then show ?thesis by (simp add: narrative_eval)
qed

text \<open>
  C8 (amended). When the award group has more than five events, the sentence is
  ``Received N awards and honors.'' with N the number of all events of the group, those
  with an empty title included. When it has at most five events, at least one of them with
  a non-empty title, the sentence is ``Received awards: title1, title2, ... .'' listing
  the non-empty titles in the order of the events; when it has at most five events and
  none has a title no award sentence is emitted.
\<close>

theorem award_sentence_rule:
  assumes aw: "awards = filter (\<lambda>e. type_of e = ''award'') events"
    and named: "names = map (\<lambda>e. field_str (event_title e))
                          (filter (\<lambda>e. truthy (event_title e)) awards)"
  shows "(5 < length awards \<longrightarrow>
       award_sentence (group_by_type events) =
         [''Received '' @ str_nat (length awards) @ '' awards and honors.''] \<and>
       sublist (''Received '' @ str_nat (length awards) @ '' awards and honors.'')
         (create_narrative_from_events events name description)) \<and>
    (length awards \<le> 5 \<and> names \<noteq> [] \<longrightarrow>
       award_sentence (group_by_type events) =
         [''Received awards: '' @ join_str '', '' names @ ''.''] \<and>
       sublist (''Received awards: '' @ join_str '', '' names @ ''.'')
         (create_narrative_from_events events name description)) \<and>
    (length awards \<le> 5 \<and> names = [] \<longrightarrow> award_sentence (group_by_type events) = [])"
proof -
  have sen: "award_sentence (group_by_type events) =
     (if awards = [] then []
      else if length awards \<le> 5
      then (if names = [] then [] else [''Received awards: '' @ join_str '', '' names @ ''.''])
      else [''Received '' @ str_nat (length awards) @ '' awards and honors.''])"
    unfolding award_sentence_group Let_def aw named by simp
  have emitted: "sublist s (create_narrative_from_events events name description)"
    if "award_sentence (group_by_type events) = [s]" for s
    using that by (intro sentence_in_narrative award_in_parts) simp
  have many: "award_sentence (group_by_type events) =
         [''Received '' @ str_nat (length awards) @ '' awards and honors.'']"
    if "5 < length awards"
    using that sen by auto
  have few: "award_sentence (group_by_type events) =
         [''Received awards: '' @ join_str '', '' names @ ''.'']"
    if "length awards \<le> 5 \<and> names \<noteq> []"
  proof -
    from that have "awards \<noteq> []" using named by auto
    with that sen show ?thesis by simp
  qed
  have none: "award_sentence (group_by_type events) = []"
    if "length awards \<le> 5 \<and> names = []"
    using that sen by simp
  show ?thesis
    using many few none emitted by auto
qed

text \<open>
  Six award events, one of them without a title: the sentence counts all six.
\<close>

theorem award_sentence_rule_witness:
  "replicate 5 \<lparr>event_type = Some ''award'', event_title = Some ''Medal'',
       organization = None, start_date = None\<rparr> @
     [\<lparr>event_type = Some ''award'', event_title = Some '''',
       organization = None, start_date = None\<rparr>] =
     filter (\<lambda>e. type_of e = ''award'')
       (replicate 5 \<lparr>event_type = Some ''award'', event_title = Some ''Medal'',
           organization = None, start_date = None\<rparr> @
        [\<lparr>event_type = Some ''award'', event_title = Some '''',
          organization = None, start_date = None\<rparr>]) \<and>
   create_narrative_from_events
     (replicate 5 \<lparr>event_type = Some ''award'', event_title = Some ''Medal'',
         organization = None, start_date = None\<rparr> @
      [\<lparr>event_type = Some ''award'', event_title = Some '''',
        organization = None, start_date = None\<rparr>]) None None
     = ''Received 6 awards and honors.''"
proof -
  let ?events = "replicate 5 \<lparr>event_type = Some ''award'', event_title = Some ''Medal'',
         organization = None, start_date = None :: date option\<rparr> @
      [\<lparr>event_type = Some ''award'', event_title = Some '''',
        organization = None, start_date = None\<rparr>]"
  have h: "?events = filter (\<lambda>e. type_of e = ''award'') ?events"
    by (simp add: type_of_def)
  have len: "length ?events = 6" by simp
  from award_sentence_rule [OF h refl, of None None]
  have "award_sentence (group_by_type ?events) = [''Received 6 awards and honors.'']"
    unfolding len by (simp add: str_nat.simps digit_char_def)
  moreover have "biography None None = []" by (simp add: biography_def)
  moreover have "education_sentence (group_by_type ?events) = []"
    by (simp add: education_sentence_group type_of_def)
  moreover have "employment_sentence (group_by_type ?events) = []"
    by (simp add: employment_sentence_group type_of_def)
  moreover have "other_sentences (group_by_type ?events) = []"
    by (simp add: other_sentences_def other_sentence_def group_by_type_def type_of_def
        numeral_eq_Suc)
  ultimately show ?thesis
    using h by (simp add: create_narrative_join narrative_parts_def)
qed

text \<open>
  C8 as stated fails where the titled events are at most five and the sentence listing
  them is not emitted: six award events of which five have a title give the sentence that
  counts all six, and a single award event with an empty title gives no award sentence
  (alone, the fallback narrative).
\<close>

theorem award_titled_count_counterexample:
  "length (filter (\<lambda>e. truthy (event_title e))
      (filter (\<lambda>e. type_of e = ''award'')
        [\<lparr>event_type = Some ''award'', event_title = Some ''A'',
          organization = None, start_date = None\<rparr>,
         \<lparr>event_type = Some ''award'', event_title = Some ''B'',
          organization = None, start_date = None\<rparr>,
         \<lparr>event_type = Some ''award'', event_title = Some ''C'',
          organization = None, start_date = None\<rparr>,
         \<lparr>event_type = Some ''award'', event_title = Some ''D'',
          organization = None, start_date = None\<rparr>,
         \<lparr>event_type = Some ''award'', event_title = Some ''E'',
          organization = None, start_date = None\<rparr>,
         \<lparr>event_type = Some ''award'', event_title = Some '''',
          organization = None, start_date = None\<rparr>])) = 5 \<and>
   create_narrative_from_events
        [\<lparr>event_type = Some ''award'', event_title = Some ''A'',
          organization = None, start_date = None\<rparr>,
         \<lparr>event_type = Some ''award'', event_title = Some ''B'',
          organization = None, start_date = None\<rparr>,
         \<lparr>event_type = Some ''award'', event_title = Some ''C'',
          organization = None, start_date = None\<rparr>,
         \<lparr>event_type = Some ''award'', event_title = Some ''D'',
          organization = None, start_date = None\<rparr>,
         \<lparr>event_type = Some ''award'', event_title = Some ''E'',
          organization = None, start_date = None\<rparr>,
         \<lparr>event_type = Some ''award'', event_title = Some '''',
          organization = None, start_date = None\<rparr>] None None
     = ''Received 6 awards and honors.'' \<and>
   ''Received 6 awards and honors.'' \<noteq> ''Received awards: A, B, C, D, E.'' \<and>
   length (filter (\<lambda>e. truthy (event_title e))
      (filter (\<lambda>e. type_of e = ''award'')
        [\<lparr>event_type = Some ''award'', event_title = Some '''',
          organization = None, start_date = None\<rparr>])) = 0 \<and>
   create_narrative_from_events
        [\<lparr>event_type = Some ''award'', event_title = Some '''',
          organization = None, start_date = None\<rparr>] None None
     = ''This person has a diverse background with various life experiences.''"
  by (simp add: narrative_eval str_nat.simps digit_char_def)

section \<open>Claims about the reduction models\<close>

text \<open>
  C4. For every embedding vector, \<^verbatim>\<open>project_to_3d\<close> on a service whose reduction models
  have not been loaded fails with the ``model not ready'' condition, the
  \<^verbatim>\<open>RuntimeError\<close> of its first check, and returns no defaulted result; this is the
  state of a new service after any calls other than \<^verbatim>\<open>load_reduction_models\<close>. After
  \<^verbatim>\<open>load_reduction_models\<close> has been called, and whatever is called afterwards,
  \<^verbatim>\<open>project_to_3d\<close> never fails with that condition.
\<close>

theorem project_to_3d_model_not_ready:
  fixes w :: "('em, 'm) world" and em :: 'em and objs :: "'m store"
  shows "(\<not> models_loaded (self w) \<longrightarrow>
      fst (project_to_3d w v) =
        Inl (RuntimeError ''PCA/UMAP models not loaded. Call load_reduction_models() first.'')) \<and>
   (list_all (\<lambda>c. \<not> is_load c) before \<longrightarrow>
      fst (project_to_3d (run np (init_service em objs) before) v) =
        Inl (RuntimeError ''PCA/UMAP models not loaded. Call load_reduction_models() first.'')) \<and>
   fst (project_to_3d (run np (load_reduction_models w pca umap) after) v) \<noteq>
     Inl (RuntimeError ''PCA/UMAP models not loaded. Call load_reduction_models() first.'')"
proof -
  have a: "fst (project_to_3d s v) =
        Inl (RuntimeError ''PCA/UMAP models not loaded. Call load_reduction_models() first.'')"
    if "\<not> models_loaded (self s)" for s :: "('em, 'm) world"
    using that by (simp add: project_to_3d_unloaded)
  have b: "fst (project_to_3d (run np (init_service em objs) before) v) =
        Inl (RuntimeError ''PCA/UMAP models not loaded. Call load_reduction_models() first.'')"
    if "list_all (\<lambda>c. \<not> is_load c) before"
  proof -
    have "self (run np (init_service em objs) before) = self (init_service em objs)"
      using that by (rule run_without_load)
    then have "\<not> models_loaded (self (run np (init_service em objs) before))"
      by (simp add: init_service_def)
    then show ?thesis by (rule a)
  qed
  have "models_loaded (self (load_reduction_models w pca umap))"
    by (simp add: load_reduction_models_def)
  then have "models_loaded (self (run np (load_reduction_models w pca umap) after))"
    by (rule run_keeps_loaded)
  then have c: "fst (project_to_3d (run np (load_reduction_models w pca umap) after) v) \<noteq>
     Inl (RuntimeError ''PCA/UMAP models not loaded. Call load_reduction_models() first.'')"
    by (rule project_to_3d_loaded)
  show ?thesis using a [of w] b c by blast
qed

text \<open>
  A new service refuses to project, also after other calls; after loading the two pure
  stand-ins the projection of \<open>[1, 2, 3]\<close> is \<open>[2, 1]\<close>.
\<close>

theorem project_to_3d_model_not_ready_witness:
  "\<not> models_loaded (self (init_service () pure_store)) \<and>
   list_all (\<lambda>c. \<not> is_load c) [CreateNarrative [] None None, ProjectTo3d [1, 2, 3]] \<and>
   fst (project_to_3d
          (run numpy_where_exact (init_service () pure_store)
             [CreateNarrative [] None None, ProjectTo3d [1, 2, 3]])
          [1, 2, 3]) =
     Inl (RuntimeError ''PCA/UMAP models not loaded. Call load_reduction_models() first.'') \<and>
   fst (project_to_3d
          (run numpy_where_exact
             (load_reduction_models (init_service () pure_store) (Some 0) (Some 1))
             [ProjectTo3d [1, 2, 3]])
          [1, 2, 3]) = Inr [2, 1]"
proof -
  let ?w = "load_reduction_models (init_service () pure_store) (Some 0) (Some 1)"
  have h1: "\<not> models_loaded (self (init_service () pure_store))"
    by (simp add: init_service_def)
  have h2: "list_all (\<lambda>c. \<not> is_load c) [CreateNarrative [] None None, ProjectTo3d [1, 2, 3]]"
    by simp
  note t = project_to_3d_model_not_ready
    [where w = "init_service () pure_store" and v = "[1, 2, 3]" and np = numpy_where_exact
       and em = "()" and objs = pure_store
       and before = "[CreateNarrative [] None None, ProjectTo3d [1, 2, 3]]"
       and pca = "Some 0" and umap = "Some 1" and after = "[ProjectTo3d [1, 2, 3]]"]
  from t h2 have c3: "fst (project_to_3d
          (run numpy_where_exact (init_service () pure_store)
             [CreateNarrative [] None None, ProjectTo3d [1, 2, 3]])
          [1, 2, 3]) =
     Inl (RuntimeError ''PCA/UMAP models not loaded. Call load_reduction_models() first.'')"
    by blast
  have sp: "snd (project_to_3d ?w [1, 2, 3]) = ?w"
    by (simp only: project_pure_store snd_conv)
  have fp: "fst (project_to_3d ?w [1, 2, 3]) = Inr [2, 1]"
    by (simp only: project_pure_store fst_conv)
  have "run numpy_where_exact ?w [ProjectTo3d [1, 2, 3]] = ?w"
    unfolding run_def by (simp only: foldl_Cons foldl_Nil call.simps snd_conv sp)
  then have c4: "fst (project_to_3d (run numpy_where_exact ?w [ProjectTo3d [1, 2, 3]])
      [1, 2, 3]) = Inr [2, 1]"
    by (simp only: fp)
  show ?thesis using h1 h2 c3 c4 by blast
qed

text \<open>
  C9 (amended). The load flag and the two loaded models are the only state that a call
  changes. The flag starts unloaded, \<^verbatim>\<open>load_reduction_models\<close> sets it, and no call
  resets it: after any sequence of calls a loaded service is still loaded.
  Projection, nearest-cluster search, similarity search and narrative synthesis assign to
  no attribute of the service, so that without a further load it holds the same flag and
  the same two models; the three of them other than projection change nothing at all.
  Projection changes no object but the two loaded models, and these only by what their own
  \<^verbatim>\<open>transform\<close> does to them: with models whose \<^verbatim>\<open>transform\<close> is pure, projection
  and every sequence of calls without a load leave the service and the models as they
  were.
\<close>

theorem load_flag_monotonic:
  fixes w :: "('em, 'm) world" and em :: 'em and objs :: "'m store"
  shows "\<not> models_loaded (self (init_service em objs)) \<and>
   models_loaded (self (load_reduction_models w pca umap)) \<and>
   (models_loaded (self w) \<longrightarrow> models_loaded (self (run np w cmds))) \<and>
   (\<not> is_load c \<longrightarrow> self (snd (call np w c)) = self w) \<and>
   (list_all (\<lambda>c. \<not> is_load c) cmds \<longrightarrow> self (run np w cmds) = self w) \<and>
   (\<not> is_load c \<and> \<not> is_project c \<longrightarrow> snd (call np w c) = w) \<and>
   (pca_model (self w) \<noteq> Some a \<and> umap_model (self w) \<noteq> Some a \<longrightarrow>
      objects (snd (project_to_3d w v)) a = objects w a) \<and>
   (list_all (\<lambda>c. \<not> is_load c) cmds \<and>
    (\<forall>b. pca_model (self w) = Some b \<or> umap_model (self w) = Some b \<longrightarrow>
         pure_model (objects w b)) \<longrightarrow>
      snd (project_to_3d w v) = w \<and> run np w cmds = w)"
proof -
  have 1: "\<not> models_loaded (self (init_service em objs))"
    by (simp add: init_service_def)
  have 2: "models_loaded (self (load_reduction_models w pca umap))"
    by (simp add: load_reduction_models_def)
  have 8: "snd (project_to_3d w v) = w \<and> run np w cmds = w"
    if h: "list_all (\<lambda>c. \<not> is_load c) cmds \<and>
      (\<forall>b. pca_model (self w) = Some b \<or> umap_model (self w) = Some b \<longrightarrow>
         pure_model (objects w b))"
  proof
    show "snd (project_to_3d w v) = w"
      by (rule project_to_3d_pure) (use h in auto)
    show "run np w cmds = w"
      by (rule run_pure_keeps_world) (use h in auto)
  qed
  show ?thesis
    using 1 2 8 run_keeps_loaded [of w np cmds] call_keeps_self [of c np w]
      run_without_load [of cmds np w] call_keeps_world [of c np w]
      project_to_3d_objects_other [of w a v]
    by blast
qed

text \<open>
  The two pure stand-ins are loaded; a projection, a nearest-cluster search, a similarity
  search and a narrative synthesis follow. The service is still loaded and the service
  and its two models are as they were after the load.
\<close>

theorem load_flag_monotonic_witness:
  "models_loaded (self (load_reduction_models (init_service () pure_store) (Some 0) (Some 1))) \<and>
   list_all (\<lambda>c. \<not> is_load c)
     [ProjectTo3d [1, 2, 3], FindNearestCluster (0, 0, 0) [],
      FindSimilarPersons (0, 0, 0) [''a''] [(1, 0, 0)] 1, CreateNarrative [] None None] \<and>
   pure_model (pure_store 0) \<and> pure_model (pure_store 1) \<and>
   run numpy_where_exact (load_reduction_models (init_service () pure_store) (Some 0) (Some 1))
     [ProjectTo3d [1, 2, 3], FindNearestCluster (0, 0, 0) [],
      FindSimilarPersons (0, 0, 0) [''a''] [(1, 0, 0)] 1, CreateNarrative [] None None]
   = load_reduction_models (init_service () pure_store) (Some 0) (Some 1)"
proof -
  let ?w = "load_reduction_models (init_service () pure_store) (Some 0) (Some 1)"
  let ?cmds = "[ProjectTo3d [1, 2, 3], FindNearestCluster (0, 0, 0) [],
      FindSimilarPersons (0, 0, 0) [''a''] [(1, 0, 0)] 1, CreateNarrative [] None None]"
  have h1: "models_loaded (self ?w)" by (simp add: load_reduction_models_def)
  have h2: "list_all (\<lambda>c. \<not> is_load c) ?cmds" by simp
  have p0: "pure_model (pure_store 0)" and p1: "pure_model (pure_store 1)"
    by (simp_all add: pure_store_def pure_stand_ins)
  have h3: "\<forall>b. pca_model (self ?w) = Some b \<or> umap_model (self ?w) = Some b \<longrightarrow>
         pure_model (objects ?w b)"
    using p0 p1 by (auto simp: load_reduction_models_def init_service_def)
  note t = load_flag_monotonic
    [where w = ?w and cmds = ?cmds and np = numpy_where_exact and em = "()"
       and objs = pure_store and pca = "Some 0" and umap = "Some 1"
       and c = "ProjectTo3d [1, 2, 3]" and a = 2 and v = "[1, 2, 3]"]
  from t h2 h3 have "run numpy_where_exact ?w ?cmds = ?w" by blast
  with h1 h2 p0 p1 show ?thesis by blast
qed

text \<open>
  C9 as stated fails for a loaded model whose \<^verbatim>\<open>transform\<close> changes the model: with the
  counting stand-in loaded as the first model, one projection returns \<open>[2, 1]\<close> and leaves
  the loaded model with another internal state than it had.
\<close>

theorem projection_changes_model_counterexample:
  "models_loaded (self (load_reduction_models (init_service () counting_store) (Some 0) (Some 1))) \<and>
   pca_model (self (load_reduction_models (init_service () counting_store) (Some 0) (Some 1)))
     = Some 0 \<and>
   fst (project_to_3d
          (load_reduction_models (init_service () counting_store) (Some 0) (Some 1)) [1, 2, 3])
     = Inr [2, 1] \<and>
   internal (objects
       (load_reduction_models (init_service () counting_store) (Some 0) (Some 1)) 0) = 0 \<and>
   internal (objects (snd (project_to_3d
       (load_reduction_models (init_service () counting_store) (Some 0) (Some 1)) [1, 2, 3])) 0)
     = 1"
  by (simp add: project_to_3d_def load_reduction_models_def init_service_def counting_store_def
      call_transform_def counting_model_def reversing_model_def Let_def)

end
